theory Spec2Isabelle
  imports Complex_Main "HOL-Library.Log_Nat" "HOL-Library.Code_Target_Nat"
begin

section \<open>JavaScript primitives used by the server\<close>

text \<open>
  The backend is \<^verbatim>\<open>src/scripts/start-prod.js\<close> (the Express server that follows the
  launcher in that file). Strings are modelled as lists of code units below 256
  (\<^typ>\<open>string\<close>); request fields that may be missing are \<^typ>\<open>string option\<close>, with
  \<^term>\<open>None\<close> for \<^verbatim>\<open>undefined\<close>.
\<close>

subsection \<open>parseInt\<close>

text \<open>
  \<^verbatim>\<open>parseInt(s)\<close> with no radix: leading white space is dropped, a sign is read, a
  \<^verbatim>\<open>0x\<close>/\<^verbatim>\<open>0X\<close> prefix selects radix 16, and the longest prefix of digits is
  the value; no digit at all gives \<^verbatim>\<open>NaN\<close>. The result is the mathematical integer
  (for magnitudes below \<open>2^53\<close> it is the JavaScript number itself).
\<close>

datatype number = NaN | Num int

definition isWhiteSpace :: "char \<Rightarrow> bool" where
  "isWhiteSpace c = (of_char c \<in> {9, 10, 11, 12, 13, 32, 160 :: nat})"

definition digitValue :: "char \<Rightarrow> nat" where
  "digitValue c =
     (let n = (of_char c :: nat) in
      if 48 \<le> n \<and> n \<le> 57 then n - 48
      else if 97 \<le> n \<and> n \<le> 122 then n - 87
      else if 65 \<le> n \<and> n \<le> 90 then n - 55
      else 36)"

definition isDigit :: "nat \<Rightarrow> char \<Rightarrow> bool" where
  "isDigit radix c = (digitValue c < radix)"

definition mathInt :: "nat \<Rightarrow> string \<Rightarrow> int" where
  "mathInt radix z = foldl (\<lambda>acc c. acc * int radix + int (digitValue c)) 0 z"

definition stripSign :: "string \<Rightarrow> int \<times> string" where
  "stripSign s =
     (case s of
        [] \<Rightarrow> (1, [])
      | c # cs \<Rightarrow> if c = CHR ''-'' then (-1, cs) else if c = CHR ''+'' then (1, cs) else (1, s))"

definition stripPrefix :: "string \<Rightarrow> nat \<times> string" where
  "stripPrefix s =
     (case s of
        a # b # rest \<Rightarrow>
          if a = CHR ''0'' \<and> (b = CHR ''x'' \<or> b = CHR ''X'') then (16, rest) else (10, s)
      | _ \<Rightarrow> (10, s))"

definition parseInt :: "string \<Rightarrow> number" where
  "parseInt str =
     (let (sign, s) = stripSign (dropWhile isWhiteSpace str);
          (radix, t) = stripPrefix s;
          z = takeWhile (isDigit radix) t
      in if z = [] then NaN else Num (sign * mathInt radix z))"

text \<open>\<^verbatim>\<open>x || d\<close> on a number: \<^verbatim>\<open>NaN\<close> and \<open>0\<close> are falsy.\<close>

definition orElse :: "number \<Rightarrow> int \<Rightarrow> int" where
  "orElse x d = (case x of NaN \<Rightarrow> d | Num n \<Rightarrow> if n = 0 then d else n)"

text \<open>\<^verbatim>\<open>s || d\<close> and the truth value of a possibly missing string: \<^verbatim>\<open>undefined\<close> and
  the empty string are falsy.\<close>

definition truthy :: "string option \<Rightarrow> bool" where
  "truthy s = (case s of None \<Rightarrow> False | Some v \<Rightarrow> v \<noteq> [])"

subsection \<open>toLowerCase\<close>

definition lowerChar :: "char \<Rightarrow> char" where
  "lowerChar c =
     (let n = (of_char c :: nat) in
      if (65 \<le> n \<and> n \<le> 90) \<or> (192 \<le> n \<and> n \<le> 222 \<and> n \<noteq> 215) then char_of (n + 32) else c)"

definition toLowerCase :: "string \<Rightarrow> string" where
  "toLowerCase s = map lowerChar s"

subsection \<open>Numbers: double precision, toFixed, parseFloat\<close>

text \<open>
  A JavaScript number is an IEEE 754 binary64 value. Its finite values are modelled as
  the rationals they denote; \<open>fl\<close> rounds a rational to the nearest double (53
  significant bits, ties to even). Overflow and subnormal values do not occur for the
  byte counts the server handles and are not modelled; \<open>-0\<close> is identified with \<open>0\<close>.
\<close>

datatype double = Real rat | Infinity | NegInfinity | NotANumber

definition roundTiesToEven :: "rat \<Rightarrow> int" where
  "roundTiesToEven x =
     (let n = \<lfloor>x\<rfloor>; r = x - of_int n
      in if r < 1 / 2 then n else if 1 / 2 < r then n + 1 else if even n then n else n + 1)"

text \<open>\<open>exponent x\<close> is \<open>\<lfloor>log\<^sub>2 \<bar>x\<bar>\<rfloor>\<close> for \<open>x \<noteq> 0\<close>.\<close>

definition exponent :: "rat \<Rightarrow> int" where
  "exponent x =
     (let (a, b) = quotient_of \<bar>x\<bar>; e = bitlen a - bitlen b
      in if power_int 2 e \<le> \<bar>x\<bar> then e else e - 1)"

definition fl :: "rat \<Rightarrow> rat" where
  "fl x = (if x = 0 then 0
           else let u = power_int 2 (exponent x - 52) in of_int (roundTiesToEven (x / u)) * u)"

definition digitChar :: "nat \<Rightarrow> char" where
  "digitChar d = char_of (48 + d)"

fun decimal :: "nat \<Rightarrow> string" where
  "decimal n = (if n < 10 then [digitChar n] else decimal (n div 10) @ [digitChar (n mod 10)])"

declare decimal.simps [simp del]

text \<open>
  \<^verbatim>\<open>x.toFixed(2)\<close>: the sign is split off, \<open>n\<close> is the integer for which \<open>n / 100\<close>
  is closest to \<open>\<bar>x\<bar>\<close> (the larger one on a tie), and the digits of \<open>n\<close> are printed
  with two of them after the point. (Values of magnitude \<open>10^21\<close> and more, printed in
  exponent notation, are beyond the sizes handled.)
\<close>

definition hundredths :: "rat \<Rightarrow> nat" where
  "hundredths x = nat \<lfloor>\<bar>x\<bar> * 100 + 1 / 2\<rfloor>"

definition toFixed2 :: "double \<Rightarrow> string" where
  "toFixed2 d =
     (case d of
        NotANumber \<Rightarrow> ''NaN''
      | Infinity \<Rightarrow> ''Infinity''
      | NegInfinity \<Rightarrow> ''-Infinity''
      | Real x \<Rightarrow>
          (let n = hundredths x
           in (if x < 0 then ''-'' else []) @ decimal (n div 100) @ ''.''
              @ [digitChar (n mod 100 div 10), digitChar (n mod 10)]))"

text \<open>The number a \<^verbatim>\<open>toFixed(2)\<close> string of a finite \<open>x\<close> denotes: the signed count of
  hundredths, divided by 100.\<close>

definition fixedValue :: "rat \<Rightarrow> rat" where
  "fixedValue y = (if y < 0 then - 1 else 1) * of_nat (hundredths y) / 100"

text \<open>
  \<^verbatim>\<open>parseFloat(s)\<close> on a decimal literal: white space, a sign, then \<^verbatim>\<open>Infinity\<close> or
  digits with an optional fraction. Exponent parts are not read (the server passes
  \<^verbatim>\<open>toFixed\<close> results only).
\<close>

definition parseFloat :: "string \<Rightarrow> double" where
  "parseFloat str =
     (let (sign, s) = stripSign (dropWhile isWhiteSpace str);
          ds = takeWhile (isDigit 10) s;
          rest = dropWhile (isDigit 10) s;
          fs = (case rest of [] \<Rightarrow> []
                | c # cs \<Rightarrow> if c = CHR ''.'' then takeWhile (isDigit 10) cs else [])
      in if take 8 s = ''Infinity'' then (if sign < 0 then NegInfinity else Infinity)
         else if ds = [] \<and> fs = [] then NotANumber
         else Real (fl (of_int sign
                * (of_int (mathInt 10 ds) + of_int (mathInt 10 fs) / 10 ^ length fs))))"

text \<open>
  \<^verbatim>\<open>String(x)\<close> for a double \<open>x\<close> that is the nearest double to a decimal with at most
  two fraction digits (what \<^verbatim>\<open>parseFloat(y.toFixed(2))\<close> returns): that decimal,
  without trailing zeros.
\<close>

definition numberToString :: "double \<Rightarrow> string" where
  "numberToString d =
     (case d of
        NotANumber \<Rightarrow> ''NaN''
      | Infinity \<Rightarrow> ''Infinity''
      | NegInfinity \<Rightarrow> ''-Infinity''
      | Real y \<Rightarrow>
          (let n = nat (roundTiesToEven (\<bar>y\<bar> * 100))
           in (if y < 0 \<and> n \<noteq> 0 then ''-'' else []) @ decimal (n div 100)
              @ (if n mod 100 = 0 then []
                 else if n mod 10 = 0 then [CHR ''.'', digitChar (n mod 100 div 10)]
                 else [CHR ''.'', digitChar (n mod 100 div 10), digitChar (n mod 10)])))"

subsection \<open>formatFileSize\<close>

text \<open>
  \<^verbatim>\<open>i = Math.floor(Math.log(bytes) / Math.log(1024))\<close> is \<open>\<lfloor>log\<^bsub>1024\<^esub> bytes\<rfloor>\<close> for
  positive \<open>bytes\<close>. For negative \<open>bytes\<close> the logarithm is \<^verbatim>\<open>NaN\<close>, so is the quotient
  \<^verbatim>\<open>bytes / Math.pow(k, i)\<close>, and \<^verbatim>\<open>sizes[NaN]\<close> is \<^verbatim>\<open>undefined\<close>.
\<close>

definition sizes :: "string list" where
  "sizes = [''Bytes'', ''KB'', ''MB'']"

definition formatFileSize :: "int \<Rightarrow> string" where
  "formatFileSize bytes =
     (if bytes = 0 then ''0 Bytes''
      else if bytes < 0 then ''NaN undefined''
      else let i = floorlog 1024 (nat bytes) - 1
           in numberToString (parseFloat (toFixed2 (Real (fl (of_int bytes / 1024 ^ i)))))
              @ '' '' @ (if i < length sizes then sizes ! i else ''undefined''))"

section \<open>Parameter resolution of the compression endpoint\<close>

text \<open>
  \<^verbatim>\<open>const { quality = 80, format = 'jpeg', width, height, maintainAspectRatio = 'true' } = req.body\<close>:
  a missing field takes its default; \<^verbatim>\<open>parseInt(80)\<close> reads the string \<^verbatim>\<open>"80"\<close>.
\<close>

definition qualityValue :: "string option \<Rightarrow> int" where
  "qualityValue q =
     min 100 (max 10 (orElse (parseInt (case q of None \<Rightarrow> ''80'' | Some v \<Rightarrow> v)) 80))"

definition validFormats :: "string list" where
  "validFormats = [''jpeg'', ''jpg'', ''png'', ''webp'', ''avif'']"

definition outputFormat :: "string option \<Rightarrow> string" where
  "outputFormat f =
     (let l = toLowerCase (case f of None \<Rightarrow> ''jpeg'' | Some v \<Rightarrow> v)
      in if l \<in> set validFormats then l else ''jpeg'')"

definition fileName :: "string \<Rightarrow> string \<Rightarrow> string" where
  "fileName uuid fmt = uuid @ ''.'' @ (if fmt = ''jpg'' then ''jpeg'' else fmt)"

section \<open>The image library\<close>

text \<open>
  The server drives the \<^verbatim>\<open>sharp\<close> library, which is not part of the repository. A
  pipeline object is the input buffer with the resize options set on it so far; what
  the library does with a pipeline (reading metadata, checking resize options, encoding
  to a buffer, writing a file) is a parameter of the model. A library call that throws
  returns \<^term>\<open>Inl\<close> with the error message.
\<close>

type_synonym bytes = "nat list"

record metadata =
  width :: nat
  height :: nat

datatype fit = Inside | Fill

record resizeOptions =
  opt_width :: "number option"
  opt_height :: "number option"
  withoutEnlargement :: bool
  opt_fit :: fit

datatype sharp = Sharp bytes "resizeOptions option"

datatype encoder = Jpeg int bool | Png int | Webp int | Avif int

record sharp_lib =
  sharp_metadata :: "sharp \<Rightarrow> string + metadata"
  sharp_rejects :: "resizeOptions \<Rightarrow> string option"
  sharp_toBuffer :: "sharp \<Rightarrow> encoder \<Rightarrow> string + bytes"
  sharp_toFile :: "sharp \<Rightarrow> string \<Rightarrow> string + bytes"

text \<open>\<^verbatim>\<open>sharpInstance.resize(options)\<close>: throws on options the library rejects, otherwise
  the pipeline carries the options.\<close>

definition resize :: "sharp_lib \<Rightarrow> resizeOptions \<Rightarrow> sharp \<Rightarrow> string + sharp" where
  "resize lib opts inst =
     (case sharp_rejects lib opts of
        Some msg \<Rightarrow> Inl msg
      | None \<Rightarrow> (case inst of Sharp buf _ \<Rightarrow> Inr (Sharp buf (Some opts))))"

text \<open>
  What the library promises for \<^verbatim>\<open>withoutEnlargement\<close> ("do not scale up if the width
  or height are already less than the target dimensions"), stated for the fit mode
  \<^verbatim>\<open>inside\<close>: an image encoded from a pipeline whose resize options set the flag is no
  larger, in either axis, than the pipeline's input. The flag is the handler's only hold
  on the output size; whether a library keeps the promise is a property of the library.
\<close>

definition honoursWithoutEnlargement :: "sharp_lib \<Rightarrow> bool" where
  "honoursWithoutEnlargement lib \<longleftrightarrow>
     (\<forall>buf opts enc out m m'.
        withoutEnlargement opts \<and> opt_fit opts = Inside \<and>
        sharp_metadata lib (Sharp buf None) = Inr m \<and>
        sharp_toBuffer lib (Sharp buf (Some opts)) enc = Inr out \<and>
        sharp_metadata lib (Sharp out None) = Inr m' \<longrightarrow>
        width m' \<le> width m \<and> height m' \<le> height m)"

section \<open>Server state, requests and responses\<close>

record user =
  username :: string
  email :: string
  role :: string
  totalCompressions :: int
  totalSizeSaved :: int
  lastCompression :: "nat option"

record compressionHistory =
  record_id :: nat
  userId :: nat
  originalFilename :: string
  compressedFilename :: string
  originalSize :: nat
  compressedSize :: nat
  compressionRatio :: double
  format :: string
  quality :: int
  dimensions :: "metadata \<times> metadata"
  downloadUrl :: string
  createdAt :: nat

text \<open>
  The state the handlers read and write: the files of the uploads directory by name, the
  \<^verbatim>\<open>CompressionHistory\<close> collection in insertion order, and the \<^verbatim>\<open>User\<close> collection
  by id. The ids of stored documents and the user id of a verified token (the server
  signs it from a stored user) are \<^verbatim>\<open>ObjectId\<close>s, modelled as natural numbers; an id that
  arrives in a URL is a string, which the database driver casts or refuses (see
  \<open>deleteRecord\<close>). Dates are numbers too. A file of the uploads directory is identified
  by its name, where the code joins the name to the path of the directory; names that
  lead out of the directory are not modelled, nor are outages of the database or the
  file system themselves.
\<close>

record server =
  uploads :: "string \<rightharpoonup> bytes"
  histories :: "compressionHistory list"
  users :: "nat \<rightharpoonup> user"

record upload =
  buffer :: bytes
  file_size :: nat
  originalname :: string

text \<open>
  A compression request: the uploaded file (\<^verbatim>\<open>req.file\<close>), the identity attached by
  \<^verbatim>\<open>optionalAuth\<close> (\<^verbatim>\<open>req.user.userId\<close>, if any) and the body fields. The environment
  supplies what the handler draws from outside: the \<^verbatim>\<open>uuidv4()\<close> string, the \<^verbatim>\<open>_id\<close>
  of a new record and the current date.
\<close>

record compress_req =
  req_file :: "upload option"
  req_user :: "nat option"
  body_quality :: "string option"
  body_format :: "string option"
  body_width :: "string option"
  body_height :: "string option"
  body_maintainAspectRatio :: "string option"

record env =
  uuid :: string
  new_id :: nat
  now :: nat

record compress_res =
  res_fileName :: string
  res_originalSize :: nat
  res_compressedSize :: nat
  res_compressionRatio :: string
  res_savings :: string
  res_downloadUrl :: string
  res_format :: string
  res_dimensions :: "metadata \<times> metadata"
  res_recordId :: "nat option"

text \<open>A reply is the JSON body of a 200 response, or a status with its \<^verbatim>\<open>error\<close> and
  \<^verbatim>\<open>message\<close> fields.\<close>

datatype 'a reply = Json 'a | Fail nat string "string option"

section \<open>The compression handler\<close>

definition resizeField :: "string option \<Rightarrow> number option" where
  "resizeField w = (if truthy w then Some (parseInt (case w of None \<Rightarrow> [] | Some v \<Rightarrow> v)) else None)"

definition resizeOptionsOf :: "compress_req \<Rightarrow> resizeOptions" where
  "resizeOptionsOf req =
     \<lparr>opt_width = resizeField (body_width req),
      opt_height = resizeField (body_height req),
      withoutEnlargement = True,
      opt_fit = (if (case body_maintainAspectRatio req of None \<Rightarrow> ''true'' | Some v \<Rightarrow> v) = ''true''
                 then Inside else Fill)\<rparr>"

text \<open>The resize step: the pipeline to encode and the \<^verbatim>\<open>compressedDimensions\<close>.\<close>

definition resizeStep ::
  "sharp_lib \<Rightarrow> compress_req \<Rightarrow> sharp \<Rightarrow> metadata \<Rightarrow> string + (sharp \<times> metadata)" where
  "resizeStep lib req inst meta =
     (if truthy (body_width req) \<or> truthy (body_height req)
      then (case resize lib (resizeOptionsOf req) inst of
              Inl msg \<Rightarrow> Inl msg
            | Inr inst' \<Rightarrow>
                (case sharp_metadata lib inst' of
                   Inl msg \<Rightarrow> Inl msg
                 | Inr newMetadata \<Rightarrow> Inr (inst', newMetadata)))
      else Inr (inst, meta))"

text \<open>\<^verbatim>\<open>Math.floor(9 - (qualityValue / 11.11))\<close>, in double arithmetic.\<close>

definition pngQuality :: "int \<Rightarrow> int" where
  "pngQuality q = \<lfloor>fl (9 - fl (of_int q / fl (1111 / 100)))\<rfloor>"

definition encoderFor :: "string \<Rightarrow> int \<Rightarrow> encoder" where
  "encoderFor fmt q =
     (if fmt = ''jpeg'' \<or> fmt = ''jpg'' then Jpeg q True
      else if fmt = ''png'' then Png (max 0 (min 9 (pngQuality q)))
      else if fmt = ''webp'' then Webp q
      else if fmt = ''avif'' then Avif q
      else Jpeg q False)"

text \<open>
  The encoding step, up to \<^verbatim>\<open>compressedBuffer\<close>: source metadata, optional resize,
  encoding in the output format.
\<close>

definition encodeStep ::
  "sharp_lib \<Rightarrow> compress_req \<Rightarrow> upload \<Rightarrow> string + (metadata \<times> metadata \<times> bytes)" where
  "encodeStep lib req file =
     (let inst = Sharp (buffer file) None
      in case sharp_metadata lib inst of
           Inl msg \<Rightarrow> Inl msg
         | Inr meta \<Rightarrow>
             (case resizeStep lib req inst meta of
                Inl msg \<Rightarrow> Inl msg
              | Inr (inst', compressedDimensions) \<Rightarrow>
                  (case sharp_toBuffer lib inst'
                          (encoderFor (outputFormat (body_format req)) (qualityValue (body_quality req))) of
                     Inl msg \<Rightarrow> Inl msg
                   | Inr compressedBuffer \<Rightarrow> Inr (meta, compressedDimensions, compressedBuffer))))"

text \<open>
  \<^verbatim>\<open>(originalSize - compressedSize) / originalSize * 100\<close> in double arithmetic; a zero
  \<^verbatim>\<open>originalSize\<close> divides to \<^verbatim>\<open>-Infinity\<close> or \<^verbatim>\<open>NaN\<close>.
\<close>

definition ratioValue :: "nat \<Rightarrow> nat \<Rightarrow> double" where
  "ratioValue osz csz =
     (if osz = 0 then (if csz = 0 then NotANumber else NegInfinity)
      else Real (fl (fl ((of_nat osz - of_nat csz) / of_nat osz) * 100)))"

text \<open>The \<^verbatim>\<open>if (req.user)\<close> block: the record is saved, then the owner's counters are
  updated (\<^verbatim>\<open>findByIdAndUpdate\<close> changes nothing when no user has the id).\<close>

definition saveHistory :: "compressionHistory \<Rightarrow> server \<Rightarrow> server" where
  "saveHistory r s = s\<lparr>histories := histories s @ [r]\<rparr>"

definition updateStats :: "nat \<Rightarrow> int \<Rightarrow> nat \<Rightarrow> server \<Rightarrow> server" where
  "updateStats uid savings date s =
     (case users s uid of
        None \<Rightarrow> s
      | Some u \<Rightarrow>
          s\<lparr>users := (users s)(uid \<mapsto>
               u\<lparr>totalCompressions := totalCompressions u + 1,
                 totalSizeSaved := totalSizeSaved u + savings,
                 lastCompression := Some date\<rparr>)\<rparr>)"

definition failed :: "string \<Rightarrow> 'a reply" where
  "failed msg = Fail 500 ''Compression failed'' (Some msg)"

definition outputName :: "env \<Rightarrow> compress_req \<Rightarrow> string" where
  "outputName e req = fileName (uuid e) (outputFormat (body_format req))"

definition compressionRatioString :: "upload \<Rightarrow> bytes \<Rightarrow> string" where
  "compressionRatioString file compressedBuffer =
     toFixed2 (ratioValue (file_size file) (length compressedBuffer))"

definition savingsOf :: "upload \<Rightarrow> bytes \<Rightarrow> int" where
  "savingsOf file compressedBuffer = int (file_size file) - int (length compressedBuffer)"

definition historyRecord ::
  "env \<Rightarrow> compress_req \<Rightarrow> upload \<Rightarrow> nat \<Rightarrow> metadata \<times> metadata \<Rightarrow> bytes \<Rightarrow> compressionHistory" where
  "historyRecord e req file uid dims compressedBuffer =
     \<lparr>record_id = new_id e, userId = uid,
      originalFilename = originalname file,
      compressedFilename = outputName e req,
      originalSize = file_size file,
      compressedSize = length compressedBuffer,
      compressionRatio = parseFloat (compressionRatioString file compressedBuffer),
      format = outputFormat (body_format req),
      quality = qualityValue (body_quality req),
      dimensions = dims,
      downloadUrl = ''/uploads/'' @ outputName e req,
      createdAt = now e\<rparr>"

definition persist ::
  "env \<Rightarrow> compress_req \<Rightarrow> upload \<Rightarrow> metadata \<times> metadata \<Rightarrow> bytes \<Rightarrow> server \<Rightarrow> server" where
  "persist e req file dims compressedBuffer s =
     (case req_user req of
        None \<Rightarrow> s
      | Some uid \<Rightarrow>
          updateStats uid (savingsOf file compressedBuffer) (now e)
            (saveHistory (historyRecord e req file uid dims compressedBuffer) s))"

definition response ::
  "env \<Rightarrow> compress_req \<Rightarrow> upload \<Rightarrow> metadata \<times> metadata \<Rightarrow> bytes \<Rightarrow> compress_res" where
  "response e req file dims compressedBuffer =
     \<lparr>res_fileName = outputName e req,
      res_originalSize = file_size file,
      res_compressedSize = length compressedBuffer,
      res_compressionRatio = compressionRatioString file compressedBuffer,
      res_savings = formatFileSize (savingsOf file compressedBuffer),
      res_downloadUrl = ''/uploads/'' @ outputName e req,
      res_format = outputFormat (body_format req),
      res_dimensions = dims,
      res_recordId = (case req_user req of None \<Rightarrow> None | Some uid \<Rightarrow> Some (new_id e))\<rparr>"

text \<open>
  \<^verbatim>\<open>res.json({ success: true, fileName, ..., recordId: compressionRecord?._id })\<close>: numbers
  are serialised as JSON numbers, strings as JSON strings; \<^verbatim>\<open>compressionRatio\<close> holds
  the string returned by \<^verbatim>\<open>toFixed\<close>, and an undefined \<^verbatim>\<open>recordId\<close> is left out.
\<close>

datatype json = JBool bool | JNumber double | JString string | JObjectId nat
  | JObject "(string \<times> json) list"

definition metadataJson :: "metadata \<Rightarrow> json" where
  "metadataJson m =
     JObject [(''width'', JNumber (Real (of_nat (width m)))),
              (''height'', JNumber (Real (of_nat (height m))))]"

definition toJson :: "compress_res \<Rightarrow> json" where
  "toJson r =
     JObject
       ([(''success'', JBool True),
         (''fileName'', JString (res_fileName r)),
         (''originalSize'', JNumber (Real (of_nat (res_originalSize r)))),
         (''compressedSize'', JNumber (Real (of_nat (res_compressedSize r)))),
         (''compressionRatio'', JString (res_compressionRatio r)),
         (''savings'', JString (res_savings r)),
         (''downloadUrl'', JString (res_downloadUrl r)),
         (''format'', JString (res_format r)),
         (''dimensions'',
            JObject [(''original'', metadataJson (fst (res_dimensions r))),
                     (''compressed'', metadataJson (snd (res_dimensions r)))])]
        @ (case res_recordId r of None \<Rightarrow> [] | Some i \<Rightarrow> [(''recordId'', JObjectId i)]))"

definition jsonField :: "json \<Rightarrow> string \<Rightarrow> json option" where
  "jsonField j name = (case j of JObject kvs \<Rightarrow> map_of kvs name | _ \<Rightarrow> None)"

text \<open>
  The handler of \<^verbatim>\<open>POST /api/compress\<close>, in the order of the source: the file check,
  the encoding step, \<^verbatim>\<open>sharp(compressedBuffer).toFile(outputPath)\<close>, the
  \<^verbatim>\<open>if (req.user)\<close> block, the response. An exception at any step is caught and
  answered with status 500; the state then is the state reached so far.
\<close>

definition compress ::
  "sharp_lib \<Rightarrow> env \<Rightarrow> compress_req \<Rightarrow> server \<Rightarrow> compress_res reply \<times> server" where
  "compress lib e req s =
     (case req_file req of
        None \<Rightarrow> (Fail 400 ''No image file provided'' None, s)
      | Some file \<Rightarrow>
          (case encodeStep lib req file of
             Inl msg \<Rightarrow> (failed msg, s)
           | Inr (meta, compressedDimensions, compressedBuffer) \<Rightarrow>
               (case sharp_toFile lib (Sharp compressedBuffer None) (outputName e req) of
                  Inl msg \<Rightarrow> (failed msg, s)
                | Inr written \<Rightarrow>
                    (Json (response e req file (meta, compressedDimensions) compressedBuffer),
                     persist e req file (meta, compressedDimensions) compressedBuffer
                       (s\<lparr>uploads := (uploads s)(outputName e req \<mapsto> written)\<rparr>)))))"

section \<open>The history endpoints\<close>

text \<open>
  \<^verbatim>\<open>authenticateToken\<close>: a request without a token is answered 401, one whose token
  does not verify 403; otherwise the handler runs with the token's \<^verbatim>\<open>userId\<close>.
\<close>

datatype auth = NoToken | InvalidToken | Verified nat

definition authenticateToken :: "auth \<Rightarrow> (nat \<Rightarrow> 'a reply \<times> server) \<Rightarrow> server \<Rightarrow> 'a reply \<times> server" where
  "authenticateToken a handler s =
     (case a of
        NoToken \<Rightarrow> (Fail 401 ''Access token required'' None, s)
      | InvalidToken \<Rightarrow> (Fail 403 ''Invalid or expired token'' None, s)
      | Verified uid \<Rightarrow> handler uid)"

subsection \<open>Listing\<close>

record history_query =
  query_page :: "string option"
  query_limit :: "string option"
  query_sortBy :: "string option"
  query_sortOrder :: "string option"

record pagination =
  page :: int
  limit :: int
  total :: nat
  pages :: int
  sortBy :: string
  sortOrder :: string

record history_res =
  history :: "compressionHistory list"
  paging :: pagination

definition validSortFields :: "string list" where
  "validSortFields = [''createdAt'', ''originalSize'', ''compressedSize'', ''compressionRatio'']"

text \<open>
  The order of the values of a sort field. Numbers sort by value, \<^verbatim>\<open>NaN\<close> below all
  others. The sort inserts the records one by one, the last stored first, each behind
  the records whose key is equal: records with equal keys come out in reverse storage
  order (the database leaves their order open). The projection \<^verbatim>\<open>select('-userId')\<close>
  is not applied: the listed records are shown whole.
\<close>

definition doubleLess :: "double \<Rightarrow> double \<Rightarrow> bool" where
  "doubleLess a b =
     (case (a, b) of
        (_, NotANumber) \<Rightarrow> False
      | (NotANumber, _) \<Rightarrow> True
      | (_, NegInfinity) \<Rightarrow> False
      | (NegInfinity, _) \<Rightarrow> True
      | (Infinity, _) \<Rightarrow> False
      | (_, Infinity) \<Rightarrow> True
      | (Real x, Real y) \<Rightarrow> x < y)"

definition sortKey :: "string \<Rightarrow> compressionHistory \<Rightarrow> double" where
  "sortKey field r =
     (if field = ''originalSize'' then Real (of_nat (originalSize r))
      else if field = ''compressedSize'' then Real (of_nat (compressedSize r))
      else if field = ''compressionRatio'' then compressionRatio r
      else Real (of_nat (createdAt r)))"

definition before :: "string \<Rightarrow> int \<Rightarrow> compressionHistory \<Rightarrow> compressionHistory \<Rightarrow> bool" where
  "before field order a b =
     (if order = 1 then doubleLess (sortKey field a) (sortKey field b)
      else doubleLess (sortKey field b) (sortKey field a))"

fun insertSorted ::
  "string \<Rightarrow> int \<Rightarrow> compressionHistory \<Rightarrow> compressionHistory list \<Rightarrow> compressionHistory list" where
  "insertSorted field order r [] = [r]"
| "insertSorted field order r (x # xs) =
     (if before field order r x then r # x # xs else x # insertSorted field order r xs)"

definition sortHistory :: "string \<Rightarrow> int \<Rightarrow> compressionHistory list \<Rightarrow> compressionHistory list" where
  "sortHistory field order rs = foldr (insertSorted field order) rs []"

definition getHistory :: "auth \<Rightarrow> history_query \<Rightarrow> server \<Rightarrow> history_res reply \<times> server" where
  "getHistory a q s =
     authenticateToken a
       (\<lambda>uid.
          let pageV = orElse (parseInt (case query_page q of None \<Rightarrow> ''undefined'' | Some v \<Rightarrow> v)) 1;
              limitV = orElse (parseInt (case query_limit q of None \<Rightarrow> ''undefined'' | Some v \<Rightarrow> v)) 10;
              sortByV = (if truthy (query_sortBy q)
                         then (case query_sortBy q of None \<Rightarrow> [] | Some v \<Rightarrow> v) else ''createdAt'');
              sortOrderV = (if query_sortOrder q = Some ''asc'' then 1 else - 1 :: int)
          in if sortByV \<notin> set validSortFields then (Fail 400 ''Invalid sortBy field'' None, s)
             else if pageV < 1 \<or> limitV < 1
             then (Fail 400 ''Page and limit must be positive integers'' None, s)
             else
               (let skip = (pageV - 1) * limitV;
                    mine = filter (\<lambda>r. userId r = uid) (histories s);
                    found = take (nat limitV) (drop (nat skip) (sortHistory sortByV sortOrderV mine));
                    totalV = length mine
                in (Json \<lparr>history = found,
                           paging = \<lparr>page = pageV, limit = limitV, total = totalV,
                                     pages = \<lceil>(of_nat totalV :: rat) / of_int limitV\<rceil>,
                                     sortBy = sortByV,
                                     sortOrder = (if sortOrderV = 1 then ''asc'' else ''desc'')\<rparr>\<rparr>,
                    s)))
       s"

subsection \<open>Deleting a record\<close>

text \<open>
  The \<^verbatim>\<open>:recordId\<close> of the URL is a string. The database driver casts it to an
  \<^verbatim>\<open>ObjectId\<close> when the query \<^verbatim>\<open>findOne({ _id: req.params.recordId, userId })\<close> is
  built, and throws a \<^verbatim>\<open>CastError\<close> for a string that is not one; the \<^verbatim>\<open>catch\<close> of the
  handler answers it with status 500, the error \<^verbatim>\<open>Failed to delete record\<close> and the
  message of the \<^verbatim>\<open>CastError\<close>, before anything is changed. Which strings the driver
  takes for \<^verbatim>\<open>ObjectId\<close>s, and which document id each of them denotes, is a parameter of
  the model (\<open>Inl\<close> carries the message of the \<^verbatim>\<open>CastError\<close>).
\<close>

type_synonym castObjectId = "string \<Rightarrow> string + nat"

text \<open>\<^verbatim>\<open>findOneAndDelete\<close> and \<^verbatim>\<open>findByIdAndDelete\<close> remove the first document that
  matches, if there is one.\<close>

fun deleteFirst :: "('a \<Rightarrow> bool) \<Rightarrow> 'a list \<Rightarrow> 'a list" where
  "deleteFirst P [] = []"
| "deleteFirst P (x # xs) = (if P x then xs else x # deleteFirst P xs)"

definition unlinkIfExists :: "string \<Rightarrow> server \<Rightarrow> server" where
  "unlinkIfExists name s =
     (if uploads s name \<noteq> None then s\<lparr>uploads := (uploads s)(name := None)\<rparr> else s)"

definition deleteRecord :: "castObjectId \<Rightarrow> auth \<Rightarrow> string \<Rightarrow> server \<Rightarrow> string reply \<times> server" where
  "deleteRecord cast a recordId s =
     authenticateToken a
       (\<lambda>uid.
          case cast recordId of
            Inl message \<Rightarrow> (Fail 500 ''Failed to delete record'' (Some message), s)
          | Inr i \<Rightarrow>
              (case find (\<lambda>r. record_id r = i \<and> userId r = uid) (histories s) of
                 None \<Rightarrow> (Fail 404 ''Record not found'' None, s)
               | Some record \<Rightarrow>
                   (let s1 = unlinkIfExists (compressedFilename record) s;
                        s2 = s1\<lparr>histories := deleteFirst (\<lambda>r. record_id r = i) (histories s1)\<rparr>
                    in (Json ''Compression record deleted successfully'', s2))))
       s"

subsection \<open>Cleanup by file name\<close>

definition cleanup :: "auth \<Rightarrow> string \<Rightarrow> server \<Rightarrow> string reply \<times> server" where
  "cleanup a filename s =
     authenticateToken a
       (\<lambda>uid.
          let s1 = s\<lparr>histories :=
                      deleteFirst (\<lambda>r. compressedFilename r = filename \<and> userId r = uid) (histories s)\<rparr>
          in if uploads s1 filename \<noteq> None
             then (Json ''File deleted successfully'', s1\<lparr>uploads := (uploads s1)(filename := None)\<rparr>)
             else (Fail 404 ''File not found'' None, s1))
       s"

section \<open>A small image library for concrete runs\<close>

text \<open>
  An instance of the library parameter, used to run the handlers on concrete requests.
  An image is its width, its height and a payload. Encoding to a buffer applies the
  resize options (a requested dimension replaces the source's, capped at the source's
  when \<^verbatim>\<open>withoutEnlargement\<close> is set) and records the encoder settings in the
  payload. Writing a file decodes the buffer and encodes it again with the default
  quality 80, as \<^verbatim>\<open>sharp(buffer).toFile(path)\<close> does.
\<close>

definition toy_metadata :: "sharp \<Rightarrow> string + metadata" where
  "toy_metadata inst =
     (case inst of
        Sharp (w # h # _) _ \<Rightarrow> Inr \<lparr>width = w, height = h\<rparr>
      | _ \<Rightarrow> Inl ''Input buffer contains unsupported image format'')"

definition toy_bad :: "number option \<Rightarrow> bool" where
  "toy_bad t = (case t of None \<Rightarrow> False | Some NaN \<Rightarrow> True | Some (Num n) \<Rightarrow> n \<le> 0)"

definition toy_rejects :: "resizeOptions \<Rightarrow> string option" where
  "toy_rejects opts =
     (if toy_bad (opt_width opts) then Some ''Expected positive integer for width''
      else if toy_bad (opt_height opts) then Some ''Expected positive integer for height''
      else None)"

definition toy_target :: "nat \<Rightarrow> number option \<Rightarrow> bool \<Rightarrow> nat" where
  "toy_target d t capped =
     (case t of Some (Num n) \<Rightarrow> if capped then min d (nat n) else nat n | _ \<Rightarrow> d)"

definition toy_payload :: "encoder \<Rightarrow> bytes" where
  "toy_payload enc =
     (case enc of
        Jpeg q m \<Rightarrow> [11, nat q]
      | Png l \<Rightarrow> [12, nat l]
      | Webp q \<Rightarrow> [13, nat q]
      | Avif q \<Rightarrow> [14, nat q])"

definition toy_toBuffer :: "sharp \<Rightarrow> encoder \<Rightarrow> string + bytes" where
  "toy_toBuffer inst enc =
     (case inst of
        Sharp (w # h # _) None \<Rightarrow> Inr (w # h # toy_payload enc)
      | Sharp (w # h # _) (Some opts) \<Rightarrow>
          Inr (toy_target w (opt_width opts) (withoutEnlargement opts)
               # toy_target h (opt_height opts) (withoutEnlargement opts)
               # toy_payload enc)
      | _ \<Rightarrow> Inl ''Input buffer contains unsupported image format'')"

definition toy_toFile :: "sharp \<Rightarrow> string \<Rightarrow> string + bytes" where
  "toy_toFile inst path =
     (case inst of
        Sharp (w # h # _) _ \<Rightarrow> Inr [w, h, 0, 80, 0]
      | _ \<Rightarrow> Inl ''Input buffer contains unsupported image format'')"

definition toy_sharp :: sharp_lib where
  "toy_sharp =
     \<lparr>sharp_metadata = toy_metadata, sharp_rejects = toy_rejects,
      sharp_toBuffer = toy_toBuffer, sharp_toFile = toy_toFile\<rparr>"

definition photo :: upload where
  "photo = \<lparr>buffer = [200, 100, 7, 7, 7, 7, 7, 7], file_size = 8, originalname = ''photo.png''\<rparr>"

definition tiny :: upload where
  "tiny = \<lparr>buffer = [200, 100, 7], file_size = 3, originalname = ''tiny.png''\<rparr>"

definition same :: upload where
  "same = \<lparr>buffer = [200, 100, 7, 7], file_size = 4, originalname = ''same.png''\<rparr>"

definition request :: compress_req where
  "request =
     \<lparr>req_file = Some photo, req_user = None, body_quality = None, body_format = None,
      body_width = None, body_height = None, body_maintainAspectRatio = None\<rparr>"

definition env1 :: env where
  "env1 = \<lparr>uuid = ''u1'', new_id = 7, now = 1000\<rparr>"

definition alice :: user where
  "alice = \<lparr>username = ''alice'', email = ''a@x.org'', role = ''user'',
            totalCompressions = 2, totalSizeSaved = 50, lastCompression = Some 900\<rparr>"

definition stored :: "nat \<Rightarrow> nat \<Rightarrow> string \<Rightarrow> compressionHistory" where
  "stored i uid name =
     \<lparr>record_id = i, userId = uid, originalFilename = ''in.png'', compressedFilename = name,
      originalSize = 100, compressedSize = 50, compressionRatio = Real 50, format = ''jpeg'',
      quality = 80, dimensions = (\<lparr>width = 4, height = 4\<rparr>, \<lparr>width = 4, height = 4\<rparr>),
      downloadUrl = ''/uploads/'' @ name, createdAt = 900 + i\<rparr>"

definition server1 :: server where
  "server1 =
     \<lparr>uploads = [''a.jpeg'' \<mapsto> [4, 4, 0, 80, 0]],
      histories = [stored 21 11 ''a.jpeg'', stored 22 11 ''gone.jpeg''],
      users = [11 \<mapsto> alice, 12 \<mapsto> alice\<lparr>username := ''bob'', email := ''b@x.org''\<rparr>]\<rparr>"

text \<open>
  An instance of the driver's cast, as the current driver has it: a string of 24
  hexadecimal digits is an \<^verbatim>\<open>ObjectId\<close>, the number it writes; every other string is
  refused. The message of the \<^verbatim>\<open>CastError\<close> is the driver's own and names the refused
  value; the instance keeps its first words and the value.
\<close>

definition hexObjectId :: castObjectId where
  "hexObjectId v =
     (if length v = 24 \<and> list_all (isDigit 16) v then Inr (nat (mathInt 16 v))
      else Inl (''Cast to ObjectId failed for value '' @ v))"

definition query0 :: history_query where
  "query0 = \<lparr>query_page = Some ''0'', query_limit = Some ''0'', query_sortBy = None,
             query_sortOrder = None\<rparr>"

definition body :: "'a reply \<Rightarrow> 'a option" where
  "body r = (case r of Json v \<Rightarrow> Some v | Fail _ _ _ \<Rightarrow> None)"

definition status :: "'a reply \<Rightarrow> nat" where
  "status r = (case r of Json v \<Rightarrow> 200 | Fail code _ _ \<Rightarrow> code)"

section \<open>Facts about double arithmetic and number formatting\<close>

text \<open>Rounding to a double changes a number by at most the fraction \<open>2\<^sup>-\<^sup>5\<^sup>3\<close> of its magnitude.\<close>

lemma quotient_of_abs_pos:
  assumes "x \<noteq> 0" and "quotient_of \<bar>x\<bar> = (a, b)"
  shows "0 < a \<and> 0 < b \<and> \<bar>x\<bar> = of_int a / of_int b"
proof -
  have b: "0 < b" using assms(2) by (rule quotient_of_denom_pos)
  have "Fract a b = \<bar>x\<bar>"
    using Fract_quotient_of [of "\<bar>x\<bar>"] assms(2) by simp
  then have eq: "\<bar>x\<bar> = of_int a / of_int b"
    by (simp add: Fract_of_int_quotient)
  have "0 < \<bar>x\<bar>" using assms(1) by simp
  with eq b have "0 < a"
    by (simp add: zero_less_divide_iff)
  with b eq show ?thesis by simp
qed

lemma exponent_le:
  assumes "x \<noteq> 0"
  shows "power_int 2 (exponent x) \<le> \<bar>x\<bar>"
proof -
  obtain a b where q: "quotient_of \<bar>x\<bar> = (a, b)" by (cases "quotient_of \<bar>x\<bar>")
  from quotient_of_abs_pos [OF assms q]
  have a: "0 < a" and b: "0 < b" and x: "\<bar>x\<bar> = of_int a / of_int b" by simp_all
  let ?e = "bitlen a - bitlen b"
  show ?thesis
  proof (cases "power_int 2 ?e \<le> \<bar>x\<bar>")
    case True
    then show ?thesis by (simp add: exponent_def q)
  next
    case False
    then have e: "exponent x = ?e - 1" by (simp add: exponent_def q)
    have la: "2 ^ nat (bitlen a - 1) \<le> a"
      using bitlen_bounds [of a] a by simp
    have lb: "b < 2 ^ nat (bitlen b)"
      using bitlen_bounds [of b] b by simp
    have la1: "1 \<le> bitlen a"
      using a bitlen_nonneg [of a] bitlen_eq_zero_iff [of a] by linarith
    have lb1: "1 \<le> bitlen b"
      using b bitlen_nonneg [of b] bitlen_eq_zero_iff [of b] by linarith
    have "power_int (2::rat) (?e - 1) = power_int 2 (bitlen a - 1) / power_int 2 (bitlen b)"
      using power_int_diff [of "2::rat" "bitlen a - 1" "bitlen b"] by (simp add: algebra_simps)
    also have "\<dots> = 2 ^ nat (bitlen a - 1) / 2 ^ nat (bitlen b)"
      using la1 lb1 by (simp add: power_int_def)
    also have "\<dots> \<le> of_int a / of_int b"
    proof (rule frac_le)
      show "0 \<le> rat_of_int a" using a by simp
      have "rat_of_int (2 ^ nat (bitlen a - 1)) \<le> rat_of_int a"
        using la by (simp only: of_int_le_iff)
      then show "(2::rat) ^ nat (bitlen a - 1) \<le> rat_of_int a" by simp
      show "0 < rat_of_int b" using b by simp
      have "rat_of_int b \<le> rat_of_int (2 ^ nat (bitlen b))"
        using lb by (simp only: of_int_le_iff)
      then show "rat_of_int b \<le> 2 ^ nat (bitlen b)" by simp
    qed
    finally show ?thesis using e x by simp
  qed
qed

lemma roundTiesToEven_error: "\<bar>of_int (roundTiesToEven z) - z\<bar> \<le> 1 / 2"
proof -
  define r where "r = z - of_int \<lfloor>z\<rfloor>"
  have r: "0 \<le> r" "r < 1" unfolding r_def by linarith+
  have z: "z = of_int \<lfloor>z\<rfloor> + r" by (simp add: r_def)
  consider "r < 1 / 2" | "1 / 2 < r" | "r = 1 / 2" by linarith
  then show ?thesis
  proof cases
    case 1
    then have "roundTiesToEven z = \<lfloor>z\<rfloor>"
      by (simp add: roundTiesToEven_def Let_def r_def)
    with 1 r show ?thesis by (simp add: r_def)
  next
    case 2
    then have "roundTiesToEven z = \<lfloor>z\<rfloor> + 1"
      by (simp add: roundTiesToEven_def Let_def r_def)
    with 2 r show ?thesis by (simp add: r_def)
  next
    case 3
    then have "roundTiesToEven z = \<lfloor>z\<rfloor> \<or> roundTiesToEven z = \<lfloor>z\<rfloor> + 1"
      by (simp add: roundTiesToEven_def Let_def r_def)
    with 3 show ?thesis by (auto simp: r_def)
  qed
qed

lemma fl_error: "\<bar>fl x - x\<bar> \<le> \<bar>x\<bar> / 2 ^ 53"
proof (cases "x = 0")
  case True
  then show ?thesis by (simp add: fl_def)
next
  case False
  define u :: rat where "u = power_int 2 (exponent x - 52)"
  have u: "0 < u" by (simp add: u_def)
  have flx: "fl x = of_int (roundTiesToEven (x / u)) * u"
    using False by (simp add: fl_def u_def Let_def)
  have "fl x - x = (of_int (roundTiesToEven (x / u)) - x / u) * u"
    using u by (simp add: flx field_simps)
  then have "\<bar>fl x - x\<bar> = \<bar>of_int (roundTiesToEven (x / u)) - x / u\<bar> * u"
    using u by (simp add: abs_mult)
  also have "\<dots> \<le> 1 / 2 * u"
    using roundTiesToEven_error [of "x / u"] u by (intro mult_right_mono) auto
  also have "1 / 2 * u = power_int 2 (exponent x) / 2 ^ 53"
    by (simp add: u_def power_int_diff)
  also have "\<dots> \<le> \<bar>x\<bar> / 2 ^ 53"
    using exponent_le [OF False] by (simp add: divide_right_mono)
  finally show ?thesis .
qed

lemma fl_abs_le: "\<bar>fl x\<bar> \<le> 2 * \<bar>x\<bar>"
proof -
  have "\<bar>fl x\<bar> \<le> \<bar>fl x - x\<bar> + \<bar>x\<bar>" by linarith
  also have "\<dots> \<le> \<bar>x\<bar> / 2 ^ 53 + \<bar>x\<bar>" using fl_error [of x] by linarith
  also have "\<dots> \<le> \<bar>x\<bar> + \<bar>x\<bar>"
  proof -
    have "\<bar>x\<bar> / 2 ^ 53 \<le> \<bar>x\<bar> / 1" by (intro divide_left_mono) auto
    then show ?thesis by simp
  qed
  finally show ?thesis by simp
qed

lemma fl_chain: "\<bar>fl (fl x * 100) - 100 * x\<bar> \<le> 300 * \<bar>x\<bar> / 2 ^ 53"
proof -
  have e1: "\<bar>fl x - x\<bar> \<le> \<bar>x\<bar> / 2 ^ 53" by (rule fl_error)
  have "\<bar>fl (fl x * 100) - fl x * 100\<bar> \<le> \<bar>fl x * 100\<bar> / 2 ^ 53" by (rule fl_error)
  also have "\<dots> \<le> (200 * \<bar>x\<bar>) / 2 ^ 53"
    using fl_abs_le [of x] by (intro divide_right_mono) (auto simp: abs_mult)
  finally have e2: "\<bar>fl (fl x * 100) - fl x * 100\<bar> \<le> 200 * \<bar>x\<bar> / 2 ^ 53" .
  have "fl (fl x * 100) - 100 * x = (fl (fl x * 100) - fl x * 100) + 100 * (fl x - x)"
    by simp
  then have "\<bar>fl (fl x * 100) - 100 * x\<bar> \<le> \<bar>fl (fl x * 100) - fl x * 100\<bar> + \<bar>100 * (fl x - x)\<bar>"
    using abs_triangle_ineq [of "fl (fl x * 100) - fl x * 100" "100 * (fl x - x)"] by simp
  also have "\<bar>100 * (fl x - x)\<bar> = 100 * \<bar>fl x - x\<bar>"
    using abs_mult [of 100 "fl x - x"] by simp
  finally have "\<bar>fl (fl x * 100) - 100 * x\<bar> \<le> \<bar>fl (fl x * 100) - fl x * 100\<bar> + 100 * \<bar>fl x - x\<bar>" .
  also have "\<dots> \<le> 200 * \<bar>x\<bar> / 2 ^ 53 + 100 * (\<bar>x\<bar> / 2 ^ 53)"
    by (intro add_mono e2 mult_left_mono e1) simp
  finally show ?thesis by simp
qed

text \<open>
  An integer nearest to a number \<open>Y\<close> is also nearest to a fraction \<open>10000 d / n\<close> that \<open>Y\<close>
  approximates closer than \<open>1 / (2 n)\<close>: twice the fraction is a multiple of \<open>1 / n\<close>.
\<close>

lemma nearest_integer_transfer:
  fixes n d N :: int and Y :: rat
  assumes n: "0 < n"
    and close: "\<bar>Y - 10000 * of_int d / of_int n\<bar> < 1 / (2 * of_int n)"
    and round: "\<bar>of_int N - Y\<bar> \<le> 1 / 2"
  shows "\<bar>rat_of_int N - 10000 * of_int d / of_int n\<bar> \<le> 1 / 2"
proof (rule ccontr)
  define X where "X = 10000 * rat_of_int d / rat_of_int n"
  define A where "A = \<bar>of_int N - X\<bar>"
  assume "\<not> \<bar>of_int N - 10000 * rat_of_int d / rat_of_int n\<bar> \<le> 1 / 2"
  then have far: "1 / 2 < A" by (simp add: A_def X_def)
  have n': "0 < rat_of_int n" using n by simp
  have "rat_of_int (2 * n * N - 20000 * d) = 2 * rat_of_int n * (of_int N - X)"
    using n' by (simp add: X_def field_simps)
  then have "\<bar>rat_of_int (2 * n * N - 20000 * d)\<bar> = \<bar>2 * rat_of_int n\<bar> * A"
    by (simp only: abs_mult A_def)
  then have absEq: "rat_of_int \<bar>2 * n * N - 20000 * d\<bar> = 2 * rat_of_int n * A"
    using n' by simp
  have "rat_of_int n = 2 * rat_of_int n * (1 / 2)" by simp
  also have "\<dots> < 2 * rat_of_int n * A"
    using far n' by (intro mult_strict_left_mono) auto
  finally have "rat_of_int n < rat_of_int \<bar>2 * n * N - 20000 * d\<bar>"
    by (simp only: absEq)
  then have "n < \<bar>2 * n * N - 20000 * d\<bar>" by (simp only: of_int_less_iff)
  then have "n + 1 \<le> \<bar>2 * n * N - 20000 * d\<bar>" by simp
  then have "rat_of_int (n + 1) \<le> rat_of_int \<bar>2 * n * N - 20000 * d\<bar>"
    by (simp only: of_int_le_iff)
  then have "rat_of_int n + 1 \<le> rat_of_int \<bar>2 * n * N - 20000 * d\<bar>"
    by (simp only: of_int_add of_int_1)
  then have "rat_of_int n + 1 \<le> 2 * rat_of_int n * A"
    by (simp only: absEq)
  then have "(rat_of_int n + 1) / (2 * rat_of_int n) \<le> A"
    using n' by (simp add: pos_divide_le_eq mult.commute)
  moreover have "(rat_of_int n + 1) / (2 * rat_of_int n) = 1 / 2 + 1 / (2 * rat_of_int n)"
    using n' by (simp add: add_divide_distrib)
  ultimately have ge: "1 / 2 + 1 / (2 * rat_of_int n) \<le> A" by simp
  have "A \<le> \<bar>of_int N - Y\<bar> + \<bar>Y - X\<bar>" unfolding A_def by linarith
  also have "\<dots> < 1 / 2 + 1 / (2 * rat_of_int n)"
    using close round unfolding X_def by linarith
  finally show False using ge by linarith
qed

lemma hundredths_error:
  "\<bar>rat_of_int ((if y < 0 then - 1 else 1) * int (hundredths y)) - 100 * y\<bar> \<le> 1 / 2"
proof -
  define m where "m = \<lfloor>\<bar>y\<bar> * 100 + 1 / 2\<rfloor>"
  have "0 \<le> \<bar>y\<bar> * 100 + 1 / 2" by simp
  then have m0: "0 \<le> m" unfolding m_def by (simp only: zero_le_floor)
  then have h: "int (hundredths y) = m" by (simp add: hundredths_def m_def)
  have lo: "rat_of_int m \<le> \<bar>y\<bar> * 100 + 1 / 2" unfolding m_def by (rule of_int_floor_le)
  have hi: "\<bar>y\<bar> * 100 + 1 / 2 < rat_of_int m + 1" unfolding m_def by linarith
  show ?thesis
  proof (cases "y < 0")
    case True
    then have a: "\<bar>y\<bar> = - y" by simp
    have "- (1 / 2) \<le> - rat_of_int m - 100 * y" "- rat_of_int m - 100 * y \<le> 1 / 2"
      using lo hi unfolding a by linarith+
    then have "\<bar>- rat_of_int m - 100 * y\<bar> \<le> 1 / 2" by (intro abs_leI) linarith+
    with True show ?thesis by (simp add: h)
  next
    case False
    then have a: "\<bar>y\<bar> = y" by simp
    have "- (1 / 2) \<le> rat_of_int m - 100 * y" "rat_of_int m - 100 * y \<le> 1 / 2"
      using lo hi unfolding a by linarith+
    then have "\<bar>rat_of_int m - 100 * y\<bar> \<le> 1 / 2" by (intro abs_leI) linarith+
    with False show ?thesis by (simp add: h)
  qed
qed

lemma fixedValue_of_int:
  "fixedValue y = rat_of_int ((if y < 0 then - 1 else 1) * int (hundredths y)) / 100"
  by (simp add: fixedValue_def)

lemma ratio_nearest_hundredth:
  fixes osz csz :: nat
  assumes pos: "0 < osz" and bo: "osz \<le> 2 ^ 32" and bc: "csz \<le> 2 ^ 32"
  shows "\<bar>fixedValue (fl (fl ((of_nat osz - of_nat csz) / of_nat osz) * 100))
           - 100 * (of_nat osz - of_nat csz) / of_nat osz\<bar> \<le> 1 / 200"
proof -
  define d where "d = int osz - int csz"
  define n where "n = int osz"
  define x where "x = rat_of_int d / rat_of_int n"
  define y where "y = fl (fl x * 100)"
  define N where "N = (if y < 0 then - 1 else 1) * int (hundredths y)"
  have n: "0 < n" using pos by (simp add: n_def)
  have n': "0 < rat_of_int n" using n by simp
  have "int osz \<le> 4294967296" "int csz \<le> 4294967296" using bo bc by simp_all
  then have "\<bar>d\<bar> \<le> 4294967296" unfolding d_def by linarith
  then have dabs: "\<bar>d\<bar> \<le> 2 ^ 32" by simp
  have xeq: "(rat_of_nat osz - rat_of_nat csz) / rat_of_nat osz = x"
    by (simp add: x_def d_def n_def)
  have "\<bar>y - 100 * x\<bar> \<le> 300 * \<bar>x\<bar> / 2 ^ 53" unfolding y_def by (rule fl_chain)
  then have "100 * \<bar>y - 100 * x\<bar> \<le> 100 * (300 * \<bar>x\<bar> / 2 ^ 53)"
    by (intro mult_left_mono) auto
  moreover have "\<bar>100 * y - 10000 * rat_of_int d / rat_of_int n\<bar> = 100 * \<bar>y - 100 * x\<bar>"
    using abs_mult [of 100 "y - 100 * x"] by (simp add: x_def algebra_simps)
  moreover have "100 * (300 * \<bar>x\<bar> / 2 ^ 53) < 1 / (2 * rat_of_int n)"
  proof -
    have "rat_of_int \<bar>d\<bar> \<le> rat_of_int (2 ^ 32)" using dabs by (simp only: of_int_le_iff)
    then have "\<bar>rat_of_int d\<bar> \<le> 2 ^ 32" by simp
    then have "60000 * \<bar>rat_of_int d\<bar> \<le> 60000 * 2 ^ 32" by simp
    also have "\<dots> < (2::rat) ^ 53" by simp
    finally have "60000 * \<bar>rat_of_int d\<bar> / rat_of_int n < 2 ^ 53 / rat_of_int n"
      using n' by (simp add: divide_strict_right_mono)
    moreover have "\<bar>x\<bar> = \<bar>rat_of_int d\<bar> / rat_of_int n"
      using n' by (simp add: x_def)
    ultimately have "60000 * \<bar>x\<bar> < 2 ^ 53 / rat_of_int n" by simp
    then have "60000 * \<bar>x\<bar> / 2 ^ 53 < (2 ^ 53 / rat_of_int n) / 2 ^ 53"
      by (simp add: divide_strict_right_mono del: times_divide_eq_right)
    then show ?thesis using n' by (simp add: field_simps)
  qed
  ultimately have close: "\<bar>100 * y - 10000 * rat_of_int d / rat_of_int n\<bar> < 1 / (2 * rat_of_int n)"
    by linarith
  have round: "\<bar>rat_of_int N - 100 * y\<bar> \<le> 1 / 2"
    unfolding N_def by (rule hundredths_error)
  from nearest_integer_transfer [OF n close round]
  have "\<bar>rat_of_int N - 10000 * rat_of_int d / rat_of_int n\<bar> \<le> 1 / 2" .
  moreover have "fixedValue y - 100 * x = (rat_of_int N - 10000 * rat_of_int d / rat_of_int n) / 100"
    by (simp add: fixedValue_of_int N_def x_def)
  ultimately have near: "\<bar>fixedValue y - 100 * x\<bar> \<le> 1 / 2 / 100"
    by (simp only: abs_divide) simp
  have "fixedValue (fl (fl ((rat_of_nat osz - rat_of_nat csz) / rat_of_nat osz) * 100))
          - 100 * (rat_of_nat osz - rat_of_nat csz) / rat_of_nat osz = fixedValue y - 100 * x"
    unfolding y_def x_def d_def n_def by simp
  with near show ?thesis by simp
qed

text \<open>\<^verbatim>\<open>parseFloat\<close> reads a \<^verbatim>\<open>toFixed(2)\<close> string back as the double nearest to the
  number the string denotes.\<close>

lemma digitChar_code: "d < 10 \<Longrightarrow> (of_char (digitChar d) :: nat) = 48 + d"
  by (simp add: digitChar_def)

lemma digitValue_digitChar: "d < 10 \<Longrightarrow> digitValue (digitChar d) = d"
  by (simp add: digitValue_def digitChar_code Let_def)

lemma isDigit_digitChar: "d < 10 \<Longrightarrow> isDigit 10 (digitChar d)"
  by (simp add: isDigit_def digitValue_digitChar)

lemma isDigit_code: "isDigit 10 c \<Longrightarrow> 48 \<le> (of_char c :: nat) \<and> (of_char c :: nat) \<le> 57"
  by (auto simp: isDigit_def digitValue_def Let_def split: if_splits)

lemma decimal_digits: "\<forall>c\<in>set (decimal n). isDigit 10 c"
proof (induction n rule: decimal.induct)
  case (1 n)
  show ?case
  proof (cases "n < 10")
    case True
    then show ?thesis by (subst decimal.simps) (simp add: isDigit_digitChar)
  next
    case False
    with 1 show ?thesis by (subst decimal.simps) (simp add: isDigit_digitChar)
  qed
qed

lemma decimal_nonempty: "decimal n \<noteq> []"
  by (subst decimal.simps) simp

lemma mathInt_snoc: "mathInt r (z @ [c]) = mathInt r z * int r + int (digitValue c)"
  by (simp add: mathInt_def)

lemma mathInt_decimal: "mathInt 10 (decimal n) = int n"
proof (induction n rule: decimal.induct)
  case (1 n)
  show ?case
  proof (cases "n < 10")
    case True
    then show ?thesis by (subst decimal.simps) (simp add: mathInt_def digitValue_digitChar)
  next
    case False
    then have "mathInt 10 (decimal n) = mathInt 10 (decimal (n div 10)) * 10 + int (n mod 10)"
      by (subst decimal.simps) (simp add: mathInt_snoc digitValue_digitChar)
    also have "\<dots> = int (n div 10) * 10 + int (n mod 10)" using 1 False by simp
    also have "\<dots> = int n" by (simp add: zdiv_int zmod_int)
    finally show ?thesis .
  qed
qed

lemma takeWhile_digits:
  assumes "\<forall>c\<in>set ds. isDigit 10 c" and "\<not> isDigit 10 c"
  shows "takeWhile (isDigit 10) (ds @ c # rest) = ds"
    and "dropWhile (isDigit 10) (ds @ c # rest) = c # rest"
  using assms by (simp_all add: takeWhile_append2 dropWhile_append2)

lemma not_digit_dot: "\<not> isDigit 10 CHR ''.''"
  by (simp add: isDigit_def digitValue_def)

lemma digit_not_special:
  assumes "isDigit 10 c"
  shows "\<not> isWhiteSpace c" and "c \<noteq> CHR ''-''" and "c \<noteq> CHR ''+''" and "c \<noteq> CHR ''I''"
proof -
  from isDigit_code [OF assms] have r: "48 \<le> (of_char c :: nat)" "(of_char c :: nat) \<le> 57" by simp_all
  then show "\<not> isWhiteSpace c" by (auto simp: isWhiteSpace_def)
  from r show "c \<noteq> CHR ''-''" "c \<noteq> CHR ''+''" "c \<noteq> CHR ''I''" by auto
qed

lemma hundredths_split:
  "rat_of_int (int (n div 100)) + rat_of_int (int (n mod 100 div 10) * 10 + int (n mod 10)) / 100
     = rat_of_nat n / 100"
proof -
  have "n mod 100 = 10 * (n mod 100 div 10) + n mod 100 mod 10" by simp
  moreover have "n mod 100 mod 10 = n mod 10" by (simp add: mod_mod_cancel)
  ultimately have "n = 100 * (n div 100) + 10 * (n mod 100 div 10) + n mod 10"
    by (metis add.assoc mult_div_mod_eq)
  then have "rat_of_nat n = rat_of_nat (100 * (n div 100) + 10 * (n mod 100 div 10) + n mod 10)"
    by simp
  then show ?thesis by (simp add: field_simps)
qed

lemma parseFloat_parts:
  assumes "dropWhile isWhiteSpace str = str'" and "stripSign str' = (sg, s)"
    and "take 8 s \<noteq> ''Infinity''" and "takeWhile (isDigit 10) s = ds"
    and "dropWhile (isDigit 10) s = CHR ''.'' # cs" and "takeWhile (isDigit 10) cs = fs"
    and "ds \<noteq> []"
  shows "parseFloat str =
           Real (fl (of_int sg * (of_int (mathInt 10 ds) + of_int (mathInt 10 fs) / 10 ^ length fs)))"
  using assms by (simp add: parseFloat_def)

lemma parseFloat_body:
  fixes n :: nat
  defines "text \<equiv> decimal (n div 100) @ ''.'' @ [digitChar (n mod 100 div 10), digitChar (n mod 10)]"
  shows "parseFloat text = Real (fl (rat_of_nat n / 100))"
    and "parseFloat (CHR ''-'' # text) = Real (fl (- (rat_of_nat n / 100)))"
proof -
  let ?fs = "[digitChar (n mod 100 div 10), digitChar (n mod 10)]"
  obtain c0 cs where dk: "decimal (n div 100) = c0 # cs"
    using decimal_nonempty [of "n div 100"] by (cases "decimal (n div 100)") auto
  have all: "\<forall>c\<in>set (decimal (n div 100)). isDigit 10 c" by (rule decimal_digits)
  then have c0: "isDigit 10 c0" by (simp add: dk)
  note sp = digit_not_special [OF c0]
  have a: "n mod 100 div 10 < 10" "n mod 10 < 10" by simp_all
  have t: "text = c0 # cs @ ''.'' @ ?fs"
    by (simp add: text_def dk)
  have ws: "dropWhile isWhiteSpace text = text" using sp(1) by (simp add: t)
  have ws': "dropWhile isWhiteSpace (CHR ''-'' # text) = CHR ''-'' # text"
    by (simp add: isWhiteSpace_def)
  have ss: "stripSign text = (1, text)" using sp(2,3) by (simp add: stripSign_def t)
  have ss': "stripSign (CHR ''-'' # text) = (- 1, text)" by (simp add: stripSign_def)
  have ds: "takeWhile (isDigit 10) text = decimal (n div 100)"
    and rest: "dropWhile (isDigit 10) text = CHR ''.'' # ?fs"
    unfolding text_def using takeWhile_digits [OF all not_digit_dot] by simp_all
  have fs: "takeWhile (isDigit 10) ?fs = ?fs"
    using a by (simp add: isDigit_digitChar)
  have inf: "take 8 text \<noteq> ''Infinity''" using sp(4) by (simp add: t)
  have frac: "mathInt 10 ?fs = int (n mod 100 div 10) * 10 + int (n mod 10)"
    using a by (simp add: mathInt_def digitValue_digitChar)
  have val: "rat_of_int (mathInt 10 (decimal (n div 100)))
               + rat_of_int (mathInt 10 ?fs) / 10 ^ length ?fs
             = rat_of_nat n / 100"
    unfolding mathInt_decimal frac using hundredths_split [of n] by simp
  show "parseFloat text = Real (fl (rat_of_nat n / 100))"
    unfolding parseFloat_parts [OF ws ss inf ds rest fs decimal_nonempty] val by simp
  show "parseFloat (CHR ''-'' # text) = Real (fl (- (rat_of_nat n / 100)))"
    unfolding parseFloat_parts [OF ws' ss' inf ds rest fs decimal_nonempty] val by simp
qed

lemma parseFloat_toFixed2: "parseFloat (toFixed2 (Real y)) = Real (fl (fixedValue y))"
  using parseFloat_body [of "hundredths y"]
  by (simp add: toFixed2_def fixedValue_def Let_def)

text \<open>Positive sizes below \<open>1024\<^sup>3\<close> bytes are printed in the unit of their magnitude.\<close>

lemma formatFileSize_unit:
  assumes pos: "0 < b" and small: "b < 1024 ^ 3"
  shows "\<exists>i<3. 1024 ^ i \<le> b \<and> b < 1024 ^ (i + 1) \<and>
           formatFileSize b =
             numberToString (parseFloat (toFixed2 (Real (fl (of_int b / 1024 ^ i)))))
             @ '' '' @ sizes ! i"
proof -
  define i where "i = floorlog 1024 (nat b) - 1"
  from pos have npos: "0 < nat b" by simp
  from floorlog_bounds [OF npos, of 1024]
  have lo: "1024 ^ i \<le> nat b" and hi: "nat b < 1024 ^ floorlog 1024 (nat b)"
    by (simp_all add: i_def)
  have "floorlog 1024 (nat b) \<noteq> 0"
    using hi npos by (cases "floorlog 1024 (nat b) = 0") simp_all
  then have fl1: "floorlog 1024 (nat b) = i + 1" by (simp add: i_def)
  from lo have lo': "1024 ^ i \<le> b" using pos by (simp add: le_nat_iff)
  from hi fl1 have hi': "b < 1024 ^ (i + 1)" using pos by (simp add: nat_less_iff)
  have i3: "i < 3"
  proof (rule ccontr)
    assume "\<not> i < 3"
    then have "3 \<le> i" by simp
    then have "(1024::int) ^ 3 \<le> 1024 ^ i" by (intro power_increasing) simp_all
    with lo' small show False by simp
  qed
  have e: "floorlog 1024 (nat b) - 1 = i" by (simp add: i_def)
  from i3 have "formatFileSize b =
             numberToString (parseFloat (toFixed2 (Real (fl (of_int b / 1024 ^ i)))))
             @ '' '' @ sizes ! i"
    unfolding formatFileSize_def Let_def e using pos by (simp add: sizes_def)
  with i3 lo' hi' show ?thesis by blast
qed

section \<open>Facts about parameter resolution\<close>

lemma qualityValue_range: "10 \<le> qualityValue q \<and> qualityValue q \<le> 100"
  by (simp add: qualityValue_def)

lemma qualityValue_absent: "qualityValue None = 80"
  by code_simp

lemma qualityValue_unparsable: "parseInt v = NaN \<Longrightarrow> qualityValue (Some v) = 80"
  by (simp add: qualityValue_def orElse_def)

lemma qualityValue_clamped:
  "parseInt v = Num n \<Longrightarrow> n \<noteq> 0 \<Longrightarrow> qualityValue (Some v) = min 100 (max 10 n)"
  by (simp add: qualityValue_def orElse_def)

section \<open>Facts about the compression handler\<close>

text \<open>A successful run went through every step, and determines the reply and the state.\<close>

lemma compress_Json:
  assumes "compress lib e req s = (Json r, s')"
  shows "\<exists>upl meta cdims buf written.
           req_file req = Some upl \<and>
           encodeStep lib req upl = Inr (meta, cdims, buf) \<and>
           sharp_toFile lib (Sharp buf None) (outputName e req) = Inr written \<and>
           r = response e req upl (meta, cdims) buf \<and>
           s' = persist e req upl (meta, cdims) buf
                  (s\<lparr>uploads := (uploads s)(outputName e req \<mapsto> written)\<rparr>)"
  using assms
  by (auto simp: compress_def failed_def split: option.splits sum.splits prod.splits)

lemma compress_run:
  assumes "req_file req = Some upl"
    and "encodeStep lib req upl = Inr (meta, cdims, buf)"
    and "sharp_toFile lib (Sharp buf None) (outputName e req) = Inr written"
  shows "compress lib e req s =
           (Json (response e req upl (meta, cdims) buf),
            persist e req upl (meta, cdims) buf
              (s\<lparr>uploads := (uploads s)(outputName e req \<mapsto> written)\<rparr>))"
  using assms by (simp add: compress_def)

lemma histories_updateStats: "histories (updateStats uid sv d s) = histories s"
  by (simp add: updateStats_def split: option.splits)

lemma uploads_updateStats: "uploads (updateStats uid sv d s) = uploads s"
  by (simp add: updateStats_def split: option.splits)

lemma histories_persist:
  "histories (persist e req upl dims buf s) =
     (case req_user req of
        None \<Rightarrow> histories s
      | Some uid \<Rightarrow> histories s @ [historyRecord e req upl uid dims buf])"
  by (simp add: persist_def histories_updateStats saveHistory_def split: option.splits)

lemma outputFormat_None: "outputFormat None = ''jpeg''"
  by (simp add: outputFormat_def toLowerCase_def lowerChar_def validFormats_def)

lemma outputFormat_unsupported:
  "toLowerCase f \<notin> set validFormats \<Longrightarrow> outputFormat (Some f) = ''jpeg''"
  by (simp add: outputFormat_def)

lemma outputFormat_jpg: "toLowerCase f = ''jpg'' \<Longrightarrow> outputFormat (Some f) = ''jpg''"
  by (simp add: outputFormat_def validFormats_def)

lemma users_persist:
  "users (persist e req upl dims buf s) =
     (case req_user req of
        None \<Rightarrow> users s
      | Some uid \<Rightarrow>
          (case users s uid of
             None \<Rightarrow> users s
           | Some u \<Rightarrow>
               (users s)(uid \<mapsto>
                  u\<lparr>totalCompressions := totalCompressions u + 1,
                    totalSizeSaved := totalSizeSaved u + savingsOf upl buf,
                    lastCompression := Some (now e)\<rparr>)))"
  by (simp add: persist_def updateStats_def saveHistory_def split: option.splits)

lemma compress_anonymous:
  assumes "req_user req = None"
  shows "histories (snd (compress lib e req s)) = histories s"
    and "users (snd (compress lib e req s)) = users s"
  using assms
  by (auto simp: compress_def persist_def split: option.splits sum.splits prod.splits)

lemma jsonField_ratio: "jsonField (toJson r) ''compressionRatio'' = Some (JString (res_compressionRatio r))"
  by (simp add: jsonField_def toJson_def)

lemma jsonField_savings: "jsonField (toJson r) ''savings'' = Some (JString (res_savings r))"
  by (simp add: jsonField_def toJson_def)

lemma resizeStep_requested:
  assumes "truthy (body_width req) \<or> truthy (body_height req)"
    and "resizeStep lib req (Sharp buf None) meta = Inr (inst', cdims)"
  shows "inst' = Sharp buf (Some (resizeOptionsOf req))"
  using assms
  by (auto simp: resizeStep_def resize_def split: option.splits sum.splits)

lemma resizeOptionsOf_flags:
  "withoutEnlargement (resizeOptionsOf req)"
  "body_maintainAspectRatio req = None \<or> body_maintainAspectRatio req = Some ''true''
     \<Longrightarrow> opt_fit (resizeOptionsOf req) = Inside"
  by (auto simp: resizeOptionsOf_def)

lemma compress_stores_toFile_output:
  assumes "compress lib e req s = (Json r, s')"
  shows "\<exists>upl meta cdims buf written.
           req_file req = Some upl \<and> encodeStep lib req upl = Inr (meta, cdims, buf) \<and>
           sharp_toFile lib (Sharp buf None) (res_fileName r) = Inr written \<and>
           uploads s' (res_fileName r) = Some written \<and>
           res_compressedSize r = length buf \<and>
           res_fileName r = uuid e @ ''.'' @ (if outputFormat (body_format req) = ''jpg'' then ''jpeg''
                                               else outputFormat (body_format req))"
proof -
  from compress_Json [OF assms] obtain upl meta cdims buf written where
    f: "req_file req = Some upl" and en: "encodeStep lib req upl = Inr (meta, cdims, buf)" and
    w: "sharp_toFile lib (Sharp buf None) (outputName e req) = Inr written" and
    r: "r = response e req upl (meta, cdims) buf" and
    s': "s' = persist e req upl (meta, cdims) buf
                (s\<lparr>uploads := (uploads s)(outputName e req \<mapsto> written)\<rparr>)"
    by blast
  have n: "res_fileName r = outputName e req" by (simp add: r response_def)
  have up: "uploads s' (res_fileName r) = Some written"
    by (simp add: s' n persist_def uploads_updateStats saveHistory_def split: option.splits)
  from f en w up show ?thesis
    by (auto simp: n r response_def outputName_def fileName_def)
qed

lemma compress_encoding_failure:
  assumes "req_file req = Some upl" and "encodeStep lib req upl = Inl msg"
  shows "compress lib e req s = (Fail 500 ''Compression failed'' (Some msg), s)"
  using assms by (simp add: compress_def failed_def)

text \<open>Runs of the encoding step with the small library.\<close>

lemma encode_jpg:
  "encodeStep toy_sharp (request\<lparr>req_user := Some 11, body_format := Some ''jpg''\<rparr>) photo =
     Inr (\<lparr>width = 200, height = 100\<rparr>, \<lparr>width = 200, height = 100\<rparr>, [200, 100, 11, 80])"
  by code_simp

lemma encode_JPG:
  "encodeStep toy_sharp (request\<lparr>req_user := Some 11, body_format := Some ''JPG''\<rparr>) photo =
     Inr (\<lparr>width = 200, height = 100\<rparr>, \<lparr>width = 200, height = 100\<rparr>, [200, 100, 11, 80])"
  by code_simp

lemma encode_user1:
  "encodeStep toy_sharp (request\<lparr>req_user := Some 11\<rparr>) photo =
     Inr (\<lparr>width = 200, height = 100\<rparr>, \<lparr>width = 200, height = 100\<rparr>, [200, 100, 11, 80])"
  by code_simp

lemma encode_q50:
  "encodeStep toy_sharp (request\<lparr>body_quality := Some ''50''\<rparr>) photo =
     Inr (\<lparr>width = 200, height = 100\<rparr>, \<lparr>width = 200, height = 100\<rparr>, [200, 100, 11, 50])"
  by code_simp

lemma encode_plain:
  "encodeStep toy_sharp request photo =
     Inr (\<lparr>width = 200, height = 100\<rparr>, \<lparr>width = 200, height = 100\<rparr>, [200, 100, 11, 80])"
  by code_simp

lemma encode_tiny_user:
  "encodeStep toy_sharp (request\<lparr>req_file := Some tiny, req_user := Some 11\<rparr>) tiny =
     Inr (\<lparr>width = 200, height = 100\<rparr>, \<lparr>width = 200, height = 100\<rparr>, [200, 100, 11, 80])"
  by code_simp

lemma encode_same:
  "encodeStep toy_sharp (request\<lparr>req_file := Some same\<rparr>) same =
     Inr (\<lparr>width = 200, height = 100\<rparr>, \<lparr>width = 200, height = 100\<rparr>, [200, 100, 11, 80])"
  by code_simp

lemma ratio_half: "compressionRatioString photo [200, 100, 11, 80] = ''50.00''"
  by code_simp

lemma ratio_negative: "compressionRatioString tiny [200, 100, 11, 80] = ''-33.33''"
  by code_simp

text \<open>The small library keeps the promise of \<^verbatim>\<open>withoutEnlargement\<close>.\<close>

lemma toy_honoursWithoutEnlargement: "honoursWithoutEnlargement toy_sharp"
  unfolding honoursWithoutEnlargement_def
proof (intro allI impI)
  fix buf opts enc out m m'
  assume a: "withoutEnlargement opts \<and> opt_fit opts = Inside \<and>
        sharp_metadata toy_sharp (Sharp buf None) = Inr m \<and>
        sharp_toBuffer toy_sharp (Sharp buf (Some opts)) enc = Inr out \<and>
        sharp_metadata toy_sharp (Sharp out None) = Inr m'"
  then obtain w h rest where buf: "buf = w # h # rest"
    by (cases buf rule: list.exhaust; cases "tl buf")
       (auto simp: toy_sharp_def toy_metadata_def split: list.splits)
  from a have m: "m = \<lparr>width = w, height = h\<rparr>"
    by (auto simp: toy_sharp_def toy_metadata_def buf)
  from a have out: "out = toy_target w (opt_width opts) True # toy_target h (opt_height opts) True
                          # toy_payload enc"
    by (auto simp: toy_sharp_def toy_toBuffer_def buf)
  from a have m': "m' = \<lparr>width = toy_target w (opt_width opts) True,
                          height = toy_target h (opt_height opts) True\<rparr>"
    by (auto simp: toy_sharp_def toy_metadata_def out)
  have "toy_target d t True \<le> d" for d t
    by (simp add: toy_target_def split: option.splits number.splits)
  then show "width m' \<le> width m \<and> height m' \<le> height m"
    by (simp add: m m')
qed

lemma encode_resized:
  "encodeStep toy_sharp (request\<lparr>body_width := Some ''400''\<rparr>) photo =
     Inr (\<lparr>width = 200, height = 100\<rparr>, \<lparr>width = 200, height = 100\<rparr>, [200, 100, 11, 80])"
  by code_simp

section \<open>Facts about the history endpoints\<close>

lemma length_deleteFirst:
  "\<exists>x\<in>set xs. P x \<Longrightarrow> Suc (length (deleteFirst P xs)) = length xs"
  by (induction xs) auto

lemma deleteFirst_none: "\<not> (\<exists>x\<in>set xs. P x) \<Longrightarrow> deleteFirst P xs = xs"
  by (induction xs) auto

lemma unlinkIfExists_eq:
  "unlinkIfExists name s = s\<lparr>uploads := (uploads s)(name := None)\<rparr>"
  by (simp add: unlinkIfExists_def fun_upd_idem)

lemma histories_server1:
  "histories server1 = [stored 21 11 ''a.jpeg'', stored 22 11 ''gone.jpeg'']"
  by (simp add: server1_def)

lemma cleanup_reply:
  "fst (cleanup (Verified uid) name s) =
     (if uploads s name \<noteq> None then Json ''File deleted successfully''
      else Fail 404 ''File not found'' None)"
  by (simp add: cleanup_def authenticateToken_def)

lemma getHistory_invalid_sortBy:
  "v \<noteq> [] \<Longrightarrow> v \<notin> set validSortFields \<Longrightarrow>
     getHistory (Verified uid) (q\<lparr>query_sortBy := Some v\<rparr>) s = (Fail 400 ''Invalid sortBy field'' None, s)"
  by (simp add: getHistory_def authenticateToken_def truthy_def Let_def)

lemma getHistory_success:
  assumes "getHistory (Verified uid) q s = (Json r, s')"
  shows "s' = s \<and> 1 \<le> page (paging r) \<and> 1 \<le> limit (paging r) \<and>
         sortBy (paging r) \<in> set validSortFields \<and>
         total (paging r) = length (filter (\<lambda>h. userId h = uid) (histories s)) \<and>
         pages (paging r) = \<lceil>rat_of_nat (total (paging r)) / rat_of_int (limit (paging r))\<rceil>"
  using assms
  by (auto simp: getHistory_def authenticateToken_def Let_def split: if_splits)

lemma getHistory_defaults:
  assumes "query_page q = None" "query_limit q = None" "query_sortBy q = None" "query_sortOrder q = None"
  shows "\<exists>r. getHistory (Verified uid) q s = (Json r, s) \<and> page (paging r) = 1 \<and>
           limit (paging r) = 10 \<and> sortBy (paging r) = ''createdAt'' \<and> sortOrder (paging r) = ''desc''"
proof -
  have p: "parseInt ''undefined'' = NaN" by code_simp
  show ?thesis
    using assms by (simp add: getHistory_def authenticateToken_def Let_def p orElse_def truthy_def
        validSortFields_def)
qed

section \<open>Quality resolution\<close>

text \<open>
  C3. The claim: the raw quality is parsed as an integer and clamped into \<open>[10, 100]\<close>,
  and only an absent or non-numeric quality resolves to 80. On the input \<^verbatim>\<open>"0"\<close> the
  handler parses the integer 0, which \<^verbatim>\<open>||\<close> takes for a missing value: the resolved
  quality is 80, not the lower bound 10 that clamping 0 gives and that the neighbouring
  inputs \<^verbatim>\<open>"5"\<close> and \<^verbatim>\<open>"-3"\<close> resolve to. (The result always lies in \<open>[10, 100]\<close>, and
  absent and non-numeric inputs resolve to 80: the lemmas on \<open>qualityValue\<close> above.)
\<close>

theorem qualityValue_zero:
  "qualityValue (Some ''0'') = 80 \<and> qualityValue (Some ''5'') = 10 \<and>
   qualityValue (Some ''-3'') = 10 \<and> qualityValue (Some ''250'') = 100"
  by code_simp

section \<open>Format resolution\<close>

text \<open>
  C4, as stated: an unsupported or absent format resolves to \<^verbatim>\<open>jpeg\<close>, and for the
  input \<^verbatim>\<open>jpg\<close> the value \<^verbatim>\<open>jpeg\<close> is used for the stored file's extension and for
  the format in the response and in the persisted record. The handler normalises only
  the file name: for the input \<^verbatim>\<open>jpg\<close> the response and the record report the format
  \<^verbatim>\<open>jpg\<close>, not \<^verbatim>\<open>jpeg\<close>.
\<close>

theorem jpg_reported_as_jpg:
  "map_option res_format (body (fst (compress toy_sharp env1
       (request\<lparr>req_user := Some 11, body_format := Some ''jpg''\<rparr>) server1))) = Some ''jpg'' \<and>
   map_option res_format (body (fst (compress toy_sharp env1
       (request\<lparr>req_user := Some 11, body_format := Some ''jpg''\<rparr>) server1))) \<noteq> Some ''jpeg'' \<and>
   map format (histories (snd (compress toy_sharp env1
       (request\<lparr>req_user := Some 11, body_format := Some ''jpg''\<rparr>) server1)))
     = [''jpeg'', ''jpeg'', ''jpg'']"
proof -
  let ?req = "request\<lparr>req_user := Some 11, body_format := Some ''jpg''\<rparr>"
  have f: "req_file ?req = Some photo" by (simp add: request_def)
  have w: "sharp_toFile toy_sharp (Sharp [200, 100, 11, 80] None) (outputName env1 ?req)
             = Inr [200, 100, 0, 80, 0]"
    by (simp add: toy_sharp_def toy_toFile_def)
  have fmt: "outputFormat (Some ''jpg'') = ''jpg''"
    by (simp add: outputFormat_jpg toLowerCase_def lowerChar_def)
  show ?thesis
    unfolding compress_run [OF f encode_jpg w]
    by (simp add: body_def response_def fmt histories_persist historyRecord_def
        server1_def stored_def)
qed

text \<open>
  C4, amended: an absent format and every string outside the five supported names
  (compared in lower case) resolve to \<^verbatim>\<open>jpeg\<close>; when the input is \<^verbatim>\<open>jpg\<close> in any
  letter case, the stored file name ends in \<^verbatim>\<open>.jpeg\<close>, while the format reported in the
  response and in the persisted record is \<^verbatim>\<open>jpg\<close>.
\<close>

theorem format_resolution:
  "outputFormat None = ''jpeg'' \<and>
   (toLowerCase f \<notin> set validFormats \<longrightarrow> outputFormat (Some f) = ''jpeg'') \<and>
   (toLowerCase f = ''jpg'' \<and> body_format req = Some f \<and> compress lib e req s = (Json r, s') \<longrightarrow>
      res_fileName r = uuid e @ ''.jpeg'' \<and> res_format r = ''jpg'' \<and>
      (\<forall>uid. req_user req = Some uid \<longrightarrow>
         (\<exists>h. histories s' = histories s @ [h] \<and> format h = ''jpg'' \<and>
              compressedFilename h = uuid e @ ''.jpeg'')))"
proof (intro conjI impI)
  show "outputFormat None = ''jpeg''" by (rule outputFormat_None)
next
  assume "toLowerCase f \<notin> set validFormats"
  then show "outputFormat (Some f) = ''jpeg''" by (rule outputFormat_unsupported)
next
  assume a: "toLowerCase f = ''jpg'' \<and> body_format req = Some f \<and> compress lib e req s = (Json r, s')"
  then have fmt: "outputFormat (body_format req) = ''jpg''"
    by (simp add: outputFormat_jpg)
  from a obtain upl meta cdims buf written where
    r: "r = response e req upl (meta, cdims) buf" and
    s': "s' = persist e req upl (meta, cdims) buf
                (s\<lparr>uploads := (uploads s)(outputName e req \<mapsto> written)\<rparr>)"
    using compress_Json by blast
  have name: "outputName e req = uuid e @ ''.jpeg''"
    by (simp add: outputName_def fileName_def fmt)
  show "res_fileName r = uuid e @ ''.jpeg''" by (simp add: r response_def name)
  show "res_format r = ''jpg''" by (simp add: r response_def fmt)
  show "\<forall>uid. req_user req = Some uid \<longrightarrow>
         (\<exists>h. histories s' = histories s @ [h] \<and> format h = ''jpg'' \<and>
              compressedFilename h = uuid e @ ''.jpeg'')"
    by (simp add: s' histories_persist historyRecord_def fmt name)
qed

theorem format_resolution_witness:
  "outputFormat (Some ''gif'') = ''jpeg'' \<and>
   (\<exists>r s'. compress toy_sharp env1 (request\<lparr>req_user := Some 11, body_format := Some ''JPG''\<rparr>)
              server1 = (Json r, s') \<and>
            res_fileName r = ''u1.jpeg'' \<and> res_format r = ''jpg'' \<and>
            (\<exists>h. histories s' = histories server1 @ [h] \<and> format h = ''jpg'' \<and>
                 compressedFilename h = ''u1.jpeg''))"
proof -
  let ?req = "request\<lparr>req_user := Some 11, body_format := Some ''JPG''\<rparr>"
  have gif: "toLowerCase ''gif'' \<notin> set validFormats"
    by (simp add: toLowerCase_def lowerChar_def validFormats_def)
  have low: "toLowerCase ''JPG'' = ''jpg''"
    by code_simp
  have f: "req_file ?req = Some photo" by (simp add: request_def)
  have w: "sharp_toFile toy_sharp (Sharp [200, 100, 11, 80] None) (outputName env1 ?req)
             = Inr [200, 100, 0, 80, 0]"
    by (simp add: toy_sharp_def toy_toFile_def)
  note run = compress_run [OF f encode_JPG w, of server1]
  have b: "body_format ?req = Some ''JPG''" by simp
  have u: "req_user ?req = Some 11" by simp
  from format_resolution [of "''gif''"] gif
  have 1: "outputFormat (Some ''gif'') = ''jpeg''" by blast
  from format_resolution [of "''JPG''" ?req toy_sharp env1 server1] low b run u
  have 2: "res_fileName (response env1 ?req photo
              (\<lparr>width = 200, height = 100\<rparr>, \<lparr>width = 200, height = 100\<rparr>) [200, 100, 11, 80])
             = uuid env1 @ ''.jpeg'' \<and>
           res_format (response env1 ?req photo
              (\<lparr>width = 200, height = 100\<rparr>, \<lparr>width = 200, height = 100\<rparr>) [200, 100, 11, 80])
             = ''jpg'' \<and>
           (\<exists>h. histories (persist env1 ?req photo
                    (\<lparr>width = 200, height = 100\<rparr>, \<lparr>width = 200, height = 100\<rparr>) [200, 100, 11, 80]
                    (server1\<lparr>uploads := (uploads server1)(outputName env1 ?req \<mapsto> [200, 100, 0, 80, 0])\<rparr>))
                  = histories server1 @ [h] \<and> format h = ''jpg'' \<and>
                compressedFilename h = uuid env1 @ ''.jpeg'')"
    by blast
  have uu: "uuid env1 @ ''.jpeg'' = ''u1.jpeg''" by (simp add: env1_def)
  from 1 2 run show ?thesis unfolding uu by blast
qed

section \<open>Resizing\<close>

text \<open>
  C5. When a resize is requested in the aspect-ratio-preserving mode, the encoded image
  is no larger than the source in either axis, whatever width and height were requested.
  The output size is computed inside the image library; the handler's part is that every
  resize it requests carries \<^verbatim>\<open>withoutEnlargement: true\<close>, and \<^verbatim>\<open>fit: 'inside'\<close> when
  \<^verbatim>\<open>maintainAspectRatio\<close> is absent or \<^verbatim>\<open>'true'\<close>. So for every library that keeps
  the promise of that flag, the dimensions read from \<^verbatim>\<open>compressedBuffer\<close> are bounded
  by the dimensions read from the upload.
\<close>

theorem resize_never_enlarges:
  "honoursWithoutEnlargement lib \<and>
   (truthy (body_width req) \<or> truthy (body_height req)) \<and>
   (body_maintainAspectRatio req = None \<or> body_maintainAspectRatio req = Some ''true'') \<and>
   encodeStep lib req upl = Inr (meta, cdims, out) \<and>
   sharp_metadata lib (Sharp out None) = Inr m' \<longrightarrow>
     width m' \<le> width meta \<and> height m' \<le> height meta"
proof
  assume a: "honoursWithoutEnlargement lib \<and>
   (truthy (body_width req) \<or> truthy (body_height req)) \<and>
   (body_maintainAspectRatio req = None \<or> body_maintainAspectRatio req = Some ''true'') \<and>
   encodeStep lib req upl = Inr (meta, cdims, out) \<and>
   sharp_metadata lib (Sharp out None) = Inr m'"
  then obtain inst' where
    src: "sharp_metadata lib (Sharp (buffer upl) None) = Inr meta" and
    rs: "resizeStep lib req (Sharp (buffer upl) None) meta = Inr (inst', cdims)" and
    enc: "sharp_toBuffer lib inst'
            (encoderFor (outputFormat (body_format req)) (qualityValue (body_quality req))) = Inr out"
    by (auto simp: encodeStep_def Let_def split: sum.splits prod.splits)
  from a rs have inst': "inst' = Sharp (buffer upl) (Some (resizeOptionsOf req))"
    using resizeStep_requested by blast
  from a have fit: "opt_fit (resizeOptionsOf req) = Inside"
    using resizeOptionsOf_flags(2) by blast
  from a have "honoursWithoutEnlargement lib" and "sharp_metadata lib (Sharp out None) = Inr m'"
    by simp_all
  with src enc fit resizeOptionsOf_flags(1) [of req]
  show "width m' \<le> width meta \<and> height m' \<le> height meta"
    unfolding honoursWithoutEnlargement_def inst' by blast
qed

theorem resize_never_enlarges_witness:
  "honoursWithoutEnlargement toy_sharp \<and>
   encodeStep toy_sharp (request\<lparr>body_width := Some ''400''\<rparr>) photo =
     Inr (\<lparr>width = 200, height = 100\<rparr>, \<lparr>width = 200, height = 100\<rparr>, [200, 100, 11, 80]) \<and>
   sharp_metadata toy_sharp (Sharp [200, 100, 11, 80] None) = Inr \<lparr>width = 200, height = 100\<rparr> \<and>
   width \<lparr>width = 200, height = 100\<rparr> \<le> width \<lparr>width = 200, height = 100\<rparr> \<and>
   height \<lparr>width = 200, height = 100\<rparr> \<le> height \<lparr>width = 200, height = 100\<rparr>"
proof -
  let ?req = "request\<lparr>body_width := Some ''400''\<rparr>"
  have t: "truthy (body_width ?req) \<or> truthy (body_height ?req)" by (simp add: truthy_def)
  have ar: "body_maintainAspectRatio ?req = None \<or> body_maintainAspectRatio ?req = Some ''true''"
    by (simp add: request_def)
  have md: "sharp_metadata toy_sharp (Sharp [200, 100, 11, 80] None) = Inr \<lparr>width = 200, height = 100\<rparr>"
    by (simp add: toy_sharp_def toy_metadata_def)
  from resize_never_enlarges [where lib = toy_sharp and req = ?req and upl = photo
      and meta = "\<lparr>width = 200, height = 100\<rparr>" and cdims = "\<lparr>width = 200, height = 100\<rparr>"
      and out = "[200, 100, 11, 80]" and m' = "\<lparr>width = 200, height = 100\<rparr>"]
    toy_honoursWithoutEnlargement t ar encode_resized md
  have "width \<lparr>width = 200, height = 100\<rparr> \<le> width \<lparr>width = 200, height = 100\<rparr> \<and>
        height \<lparr>width = 200, height = 100\<rparr> \<le> height \<lparr>width = 200, height = 100\<rparr>"
    by blast
  with toy_honoursWithoutEnlargement encode_resized md show ?thesis by blast
qed

section \<open>Compression ratio and savings\<close>

text \<open>
  C2, as stated: the reported \<^verbatim>\<open>compressionRatio\<close> is a number, equal to the exact
  percentage rounded to two decimals, and ratio and savings string are reported also
  when the compressed size exceeds the original. The response does not carry a number:
  \<^verbatim>\<open>compressionRatio\<close> is the string returned by \<^verbatim>\<open>toFixed(2)\<close>, serialised as a JSON
  string. For an 8-byte upload compressed to 4 bytes the field is the string
  \<^verbatim>\<open>"50.00"\<close>, not the number 50. Nor does one rounding rule give its value: for 20000
  bytes compressed to 19999 and to 19997 the exact percentages are 0.005 and 0.015, both
  halfway between two hundredths; the doubles computed for them lie off the halfway
  points, and \<^verbatim>\<open>toFixed(2)\<close> turns both into \<^verbatim>\<open>"0.01"\<close>, the first percentage rounded up
  and the second rounded down.
\<close>

theorem ratio_reported_as_string:
  "map_option (\<lambda>r. jsonField (toJson r) ''compressionRatio'')
     (body (fst (compress toy_sharp env1 request server1))) = Some (Some (JString ''50.00'')) \<and>
   map_option (\<lambda>r. jsonField (toJson r) ''compressionRatio'')
     (body (fst (compress toy_sharp env1 request server1))) \<noteq> Some (Some (JNumber (Real 50))) \<and>
   toFixed2 (ratioValue 20000 19999) = ''0.01'' \<and>
   toFixed2 (ratioValue 20000 19997) = ''0.01''"
proof -
  have f: "req_file request = Some photo" by (simp add: request_def)
  have w: "sharp_toFile toy_sharp (Sharp [200, 100, 11, 80] None) (outputName env1 request)
             = Inr [200, 100, 0, 80, 0]"
    by (simp add: toy_sharp_def toy_toFile_def)
  have up: "toFixed2 (ratioValue 20000 19999) = ''0.01''" by code_simp
  have down: "toFixed2 (ratioValue 20000 19997) = ''0.01''" by code_simp
  show ?thesis
    unfolding compress_run [OF f encode_plain w] up down
    by (simp add: body_def jsonField_ratio response_def ratio_half)
qed

text \<open>
  C2, amended. For every successful compression result with a non-empty original and
  both sizes at most \<open>2\<^sup>3\<^sup>2\<close> bytes, and for savings of either sign: the
  \<^verbatim>\<open>compressionRatio\<close> of the response is a string, the \<^verbatim>\<open>toFixed(2)\<close> rendering of the
  double \<open>y\<close> that \<^verbatim>\<open>(originalSize - compressedSize) / originalSize * 100\<close> computes (the
  quotient rounded to a double, the product rounded again); the number that string
  denotes is a multiple of 0.01 nearest to the exact percentage (at most 0.005 away from
  it); and the persisted record stores the double nearest to that number. When the
  compressed size does not exceed the original, the savings string of the response is
  human-readable: \<^verbatim>\<open>0 Bytes\<close> for equal sizes, and otherwise (savings below
  \<open>1024\<^sup>3\<close> bytes, as they are for every upload within the limit of 10 MB) the savings
  in the unit \<^verbatim>\<open>Bytes\<close>, \<^verbatim>\<open>KB\<close> or \<^verbatim>\<open>MB\<close> of their magnitude, printed with at most two
  decimals. A size increase is not an error: whenever the library calls succeed the
  handler answers with the success response, whatever the two sizes are.
\<close>

theorem compression_ratio_reported:
  "(compress lib e req s = (Json r, s') \<and> 0 < res_originalSize r \<and>
    res_originalSize r \<le> 2 ^ 32 \<and> res_compressedSize r \<le> 2 ^ 32 \<longrightarrow>
      (let y = fl (fl ((of_nat (res_originalSize r) - of_nat (res_compressedSize r))
                       / of_nat (res_originalSize r)) * 100)
       in jsonField (toJson r) ''compressionRatio'' = Some (JString (toFixed2 (Real y))) \<and>
          \<bar>fixedValue y - 100 * (of_nat (res_originalSize r) - of_nat (res_compressedSize r))
                              / of_nat (res_originalSize r)\<bar> \<le> 1 / 200 \<and>
          (\<forall>uid. req_user req = Some uid \<longrightarrow>
             (\<exists>h. histories s' = histories s @ [h] \<and>
                  compressionRatio h = Real (fl (fixedValue y)))))) \<and>
   (compress lib e req s = (Json r, s') \<and> res_compressedSize r = res_originalSize r \<longrightarrow>
      jsonField (toJson r) ''savings'' = Some (JString ''0 Bytes'')) \<and>
   (compress lib e req s = (Json r, s') \<and> res_compressedSize r < res_originalSize r \<and>
    res_originalSize r - res_compressedSize r < 1024 ^ 3 \<longrightarrow>
      (\<exists>i<3. 1024 ^ i \<le> res_originalSize r - res_compressedSize r \<and>
             res_originalSize r - res_compressedSize r < 1024 ^ (i + 1) \<and>
             jsonField (toJson r) ''savings'' =
               Some (JString
                 (numberToString (parseFloat (toFixed2 (Real (fl
                    (of_nat (res_originalSize r - res_compressedSize r) / 1024 ^ i)))))
                  @ '' '' @ sizes ! i)))) \<and>
   (req_file req = Some upl \<and> encodeStep lib req upl = Inr (meta, cdims, buf) \<and>
    sharp_toFile lib (Sharp buf None) (outputName e req) = Inr written \<longrightarrow>
      (\<exists>r s'. compress lib e req s = (Json r, s') \<and>
              res_originalSize r = file_size upl \<and> res_compressedSize r = length buf))"
proof (intro conjI impI)
  assume a: "compress lib e req s = (Json r, s') \<and> 0 < res_originalSize r \<and>
    res_originalSize r \<le> 2 ^ 32 \<and> res_compressedSize r \<le> 2 ^ 32"
  then obtain upl' meta' cdims' buf' written' where
    r: "r = response e req upl' (meta', cdims') buf'" and
    s': "s' = persist e req upl' (meta', cdims') buf'
                (s\<lparr>uploads := (uploads s)(outputName e req \<mapsto> written')\<rparr>)"
    using compress_Json by blast
  define osz where "osz = file_size upl'"
  define csz where "csz = length buf'"
  define y where "y = fl (fl ((rat_of_nat osz - rat_of_nat csz) / rat_of_nat osz) * 100)"
  have sz: "res_originalSize r = osz" "res_compressedSize r = csz"
    by (simp_all add: r response_def osz_def csz_def)
  from a have pos: "0 < osz" and bo: "osz \<le> 2 ^ 32" and bc: "csz \<le> 2 ^ 32"
    by (simp_all add: sz)
  have str: "compressionRatioString upl' buf' = toFixed2 (Real y)"
    using pos by (simp add: compressionRatioString_def ratioValue_def y_def osz_def csz_def)
  have 1: "jsonField (toJson r) ''compressionRatio'' = Some (JString (toFixed2 (Real y)))"
    by (simp add: jsonField_ratio r response_def str)
  have 2: "\<bar>fixedValue y - 100 * (of_nat osz - of_nat csz) / of_nat osz\<bar> \<le> 1 / 200"
    unfolding y_def by (rule ratio_nearest_hundredth [OF pos bo bc])
  have 3: "\<forall>uid. req_user req = Some uid \<longrightarrow>
              (\<exists>h. histories s' = histories s @ [h] \<and>
                   compressionRatio h = Real (fl (fixedValue y)))"
    by (simp add: s' histories_persist historyRecord_def str parseFloat_toFixed2)
  show "let y = fl (fl ((of_nat (res_originalSize r) - of_nat (res_compressedSize r))
                       / of_nat (res_originalSize r)) * 100)
       in jsonField (toJson r) ''compressionRatio'' = Some (JString (toFixed2 (Real y))) \<and>
          \<bar>fixedValue y - 100 * (of_nat (res_originalSize r) - of_nat (res_compressedSize r))
                              / of_nat (res_originalSize r)\<bar> \<le> 1 / 200 \<and>
          (\<forall>uid. req_user req = Some uid \<longrightarrow>
             (\<exists>h. histories s' = histories s @ [h] \<and>
                  compressionRatio h = Real (fl (fixedValue y))))"
    unfolding Let_def sz
    by (rule conjI [OF 1 [unfolded y_def] conjI [OF 2 [unfolded y_def] 3 [unfolded y_def]]])
next
  assume a: "compress lib e req s = (Json r, s') \<and> res_compressedSize r = res_originalSize r"
  then obtain upl' meta' cdims' buf' where r: "r = response e req upl' (meta', cdims') buf'"
    using compress_Json by blast
  from a have "savingsOf upl' buf' = 0"
    by (simp add: r response_def savingsOf_def)
  then have "res_savings r = ''0 Bytes''"
    by (simp add: r response_def formatFileSize_def)
  then show "jsonField (toJson r) ''savings'' = Some (JString ''0 Bytes'')"
    by (simp add: jsonField_savings)
next
  assume a: "compress lib e req s = (Json r, s') \<and> res_compressedSize r < res_originalSize r \<and>
    res_originalSize r - res_compressedSize r < 1024 ^ 3"
  then obtain upl' meta' cdims' buf' where r: "r = response e req upl' (meta', cdims') buf'"
    using compress_Json by blast
  define d where "d = res_originalSize r - res_compressedSize r"
  from a have lt: "res_compressedSize r < res_originalSize r" and small: "d < 1024 ^ 3"
    by (simp_all add: d_def)
  from lt have diff: "int d = int (res_originalSize r) - int (res_compressedSize r)"
    by (simp add: d_def)
  from lt have d1: "0 < int d" by (simp add: d_def)
  from small have "int d < int (1024 ^ 3)" by (simp only: of_nat_less_iff)
  then have d2: "int d < 1024 ^ 3" by simp
  have "res_savings r = formatFileSize (int (res_originalSize r) - int (res_compressedSize r))"
    by (simp add: r response_def savingsOf_def)
  then have sav: "res_savings r = formatFileSize (int d)"
    by (simp only: diff)
  from formatFileSize_unit [OF d1 d2]
  obtain i where i: "i < 3" "1024 ^ i \<le> int d" "int d < 1024 ^ (i + 1)"
    and str: "formatFileSize (int d) =
                numberToString (parseFloat (toFixed2 (Real (fl (of_int (int d) / 1024 ^ i)))))
                @ '' '' @ sizes ! i"
    by blast
  from i(2) have "int (1024 ^ i) \<le> int d" by simp
  then have lo: "1024 ^ i \<le> d" by (simp only: of_nat_le_iff)
  from i(3) have "int d < int (1024 ^ (i + 1))" by simp
  then have hi: "d < 1024 ^ (i + 1)" by (simp only: of_nat_less_iff)
  have "of_int (int d) = (of_nat d :: rat)" by simp
  with str sav have "res_savings r =
          numberToString (parseFloat (toFixed2 (Real (fl (of_nat d / 1024 ^ i)))))
                         @ '' '' @ sizes ! i"
    by (simp only:)
  then have "jsonField (toJson r) ''savings'' =
          Some (JString (numberToString (parseFloat (toFixed2 (Real (fl (of_nat d / 1024 ^ i)))))
                         @ '' '' @ sizes ! i))"
    by (simp only: jsonField_savings)
  with i(1) lo hi show "\<exists>i<3. 1024 ^ i \<le> res_originalSize r - res_compressedSize r \<and>
             res_originalSize r - res_compressedSize r < 1024 ^ (i + 1) \<and>
             jsonField (toJson r) ''savings'' =
               Some (JString
                 (numberToString (parseFloat (toFixed2 (Real (fl
                    (of_nat (res_originalSize r - res_compressedSize r) / 1024 ^ i)))))
                  @ '' '' @ sizes ! i))"
    unfolding d_def by blast
next
  assume "req_file req = Some upl \<and> encodeStep lib req upl = Inr (meta, cdims, buf) \<and>
    sharp_toFile lib (Sharp buf None) (outputName e req) = Inr written"
  then have "compress lib e req s =
           (Json (response e req upl (meta, cdims) buf),
            persist e req upl (meta, cdims) buf
              (s\<lparr>uploads := (uploads s)(outputName e req \<mapsto> written)\<rparr>))"
    by (simp add: compress_run)
  then show "\<exists>r s'. compress lib e req s = (Json r, s') \<and>
              res_originalSize r = file_size upl \<and> res_compressedSize r = length buf"
    by (simp add: response_def)
qed

theorem compression_ratio_reported_witness:
  "(\<exists>r s'. compress toy_sharp env1 (request\<lparr>req_file := Some tiny, req_user := Some 11\<rparr>) server1
             = (Json r, s') \<and>
      res_originalSize r = 3 \<and> res_compressedSize r = 4 \<and>
      jsonField (toJson r) ''compressionRatio'' = Some (JString ''-33.33'') \<and>
      toFixed2 (Real (fl (fl ((3 - 4) / 3) * 100))) = ''-33.33'' \<and>
      fixedValue (fl (fl ((3 - 4) / 3) * 100)) = - 3333 / 100 \<and>
      \<bar>fixedValue (fl (fl ((3 - 4) / 3) * 100)) - (- 100 / 3)\<bar> \<le> 1 / 200 \<and>
      (\<exists>h. histories s' = histories server1 @ [h] \<and>
           compressionRatio h = Real (fl (- 3333 / 100)))) \<and>
   (\<exists>r s'. compress toy_sharp env1 request server1 = (Json r, s') \<and>
      res_originalSize r = 8 \<and> res_compressedSize r = 4 \<and>
      jsonField (toJson r) ''savings'' = Some (JString ''4 Bytes'')) \<and>
   (\<exists>r s'. compress toy_sharp env1 (request\<lparr>req_file := Some same\<rparr>) server1 = (Json r, s') \<and>
      res_originalSize r = 4 \<and> res_compressedSize r = 4 \<and>
      jsonField (toJson r) ''savings'' = Some (JString ''0 Bytes''))"
proof -
  let ?req = "request\<lparr>req_file := Some tiny, req_user := Some 11\<rparr>"
  let ?dims = "(\<lparr>width = 200, height = 100\<rparr>, \<lparr>width = 200, height = 100\<rparr>)"
  let ?r = "response env1 ?req tiny ?dims [200, 100, 11, 80]"
  let ?s' = "persist env1 ?req tiny ?dims [200, 100, 11, 80]
               (server1\<lparr>uploads := (uploads server1)(outputName env1 ?req \<mapsto> [200, 100, 0, 80, 0])\<rparr>)"
  let ?y = "fl (fl ((3 - 4) / 3) * 100)"
  have f: "req_file ?req = Some tiny" by simp
  have w: "sharp_toFile toy_sharp (Sharp [200, 100, 11, 80] None) (outputName env1 ?req)
             = Inr [200, 100, 0, 80, 0]"
    by (simp add: toy_sharp_def toy_toFile_def)
  from compression_ratio_reported [where lib = toy_sharp and e = env1 and req = ?req
      and s = server1 and upl = tiny and meta = "\<lparr>width = 200, height = 100\<rparr>"
      and cdims = "\<lparr>width = 200, height = 100\<rparr>" and buf = "[200, 100, 11, 80]"
      and written = "[200, 100, 0, 80, 0]"] f encode_tiny_user w
  have "\<exists>r s'. compress toy_sharp env1 ?req server1 = (Json r, s') \<and>
      res_originalSize r = file_size tiny \<and> res_compressedSize r = length [200, 100, 11, 80 :: nat]"
    by blast
  then obtain r s' where run: "compress toy_sharp env1 ?req server1 = (Json r, s')"
    and sz: "res_originalSize r = 3" "res_compressedSize r = 4"
    by (auto simp: tiny_def)
  have u: "req_user ?req = Some 11" by simp
  have hyp: "compress toy_sharp env1 ?req server1 = (Json r, s') \<and> 0 < res_originalSize r \<and>
              res_originalSize r \<le> 2 ^ 32 \<and> res_compressedSize r \<le> 2 ^ 32"
    using run by (simp add: sz)
  from compression_ratio_reported [where lib = toy_sharp and e = env1 and req = ?req
      and s = server1 and r = r and s' = s'] hyp
  have y: "jsonField (toJson r) ''compressionRatio'' = Some (JString (toFixed2 (Real ?y)))"
    and near: "\<bar>fixedValue ?y - (- 100 / 3)\<bar> \<le> 1 / 200"
    and h: "\<forall>uid. req_user ?req = Some uid \<longrightarrow>
              (\<exists>h. histories s' = histories server1 @ [h] \<and>
                   compressionRatio h = Real (fl (fixedValue ?y)))"
    unfolding Let_def sz by simp_all
  have str: "toFixed2 (Real ?y) = ''-33.33''" by code_simp
  have val: "fixedValue ?y = - 3333 / 100" by code_simp
  from h u have rec: "\<exists>h. histories s' = histories server1 @ [h] \<and>
                   compressionRatio h = Real (fl (- 3333 / 100))"
    unfolding val by blast
  from run sz y str val near rec
  have first: "\<exists>r s'. compress toy_sharp env1 ?req server1 = (Json r, s') \<and>
      res_originalSize r = 3 \<and> res_compressedSize r = 4 \<and>
      jsonField (toJson r) ''compressionRatio'' = Some (JString ''-33.33'') \<and>
      toFixed2 (Real ?y) = ''-33.33'' \<and>
      fixedValue ?y = - 3333 / 100 \<and>
      \<bar>fixedValue ?y - (- 100 / 3)\<bar> \<le> 1 / 200 \<and>
      (\<exists>h. histories s' = histories server1 @ [h] \<and>
           compressionRatio h = Real (fl (- 3333 / 100)))"
    by auto
  have f2: "req_file request = Some photo" by (simp add: request_def)
  have w2: "sharp_toFile toy_sharp (Sharp [200, 100, 11, 80] None) (outputName env1 request)
             = Inr [200, 100, 0, 80, 0]"
    by (simp add: toy_sharp_def toy_toFile_def)
  from compression_ratio_reported [where lib = toy_sharp and e = env1 and req = request
      and s = server1 and upl = photo and meta = "\<lparr>width = 200, height = 100\<rparr>"
      and cdims = "\<lparr>width = 200, height = 100\<rparr>" and buf = "[200, 100, 11, 80]"
      and written = "[200, 100, 0, 80, 0]"] f2 encode_plain w2
  have "\<exists>r s'. compress toy_sharp env1 request server1 = (Json r, s') \<and>
      res_originalSize r = file_size photo \<and> res_compressedSize r = length [200, 100, 11, 80 :: nat]"
    by blast
  then obtain r2 s2 where run2: "compress toy_sharp env1 request server1 = (Json r2, s2)"
    and sz2: "res_originalSize r2 = 8" "res_compressedSize r2 = 4"
    by (auto simp: photo_def)
  have hyp2: "compress toy_sharp env1 request server1 = (Json r2, s2) \<and>
      res_compressedSize r2 < res_originalSize r2 \<and>
      res_originalSize r2 - res_compressedSize r2 < 1024 ^ 3"
    using run2 by (simp add: sz2)
  from compression_ratio_reported [where lib = toy_sharp and e = env1 and req = request
      and s = server1 and r = r2 and s' = s2] hyp2
  obtain i where i3: "i < 3" and lo: "1024 ^ i \<le> res_originalSize r2 - res_compressedSize r2"
    and sav0: "jsonField (toJson r2) ''savings'' =
               Some (JString
                 (numberToString (parseFloat (toFixed2 (Real (fl
                    (of_nat (res_originalSize r2 - res_compressedSize r2) / 1024 ^ i)))))
                  @ '' '' @ sizes ! i))"
    by blast
  from lo have i: "(1024 :: nat) ^ i \<le> 4" by (simp add: sz2)
  from sav0 have sav: "jsonField (toJson r2) ''savings'' =
               Some (JString
                 (numberToString (parseFloat (toFixed2 (Real (fl (4 / 1024 ^ i)))))
                  @ '' '' @ sizes ! i))"
    by (simp add: sz2)
  have "i = 0"
  proof (rule ccontr)
    assume "i \<noteq> 0"
    then have "(1024 :: nat) ^ 1 \<le> 1024 ^ i" by (intro power_increasing) simp_all
    with i show False by simp
  qed
  have four: "numberToString (parseFloat (toFixed2 (Real (fl (4 / 1024 ^ 0))))) @ '' '' @ sizes ! 0
                = ''4 Bytes''"
    by code_simp
  from sav have "jsonField (toJson r2) ''savings'' = Some (JString ''4 Bytes'')"
    unfolding \<open>i = 0\<close> four .
  with run2 sz2
  have second: "\<exists>r s'. compress toy_sharp env1 request server1 = (Json r, s') \<and>
      res_originalSize r = 8 \<and> res_compressedSize r = 4 \<and>
      jsonField (toJson r) ''savings'' = Some (JString ''4 Bytes'')"
    by blast
  let ?req3 = "request\<lparr>req_file := Some same\<rparr>"
  have f3: "req_file ?req3 = Some same" by simp
  have w3: "sharp_toFile toy_sharp (Sharp [200, 100, 11, 80] None) (outputName env1 ?req3)
             = Inr [200, 100, 0, 80, 0]"
    by (simp add: toy_sharp_def toy_toFile_def)
  from compression_ratio_reported [where lib = toy_sharp and e = env1 and req = ?req3
      and s = server1 and upl = same and meta = "\<lparr>width = 200, height = 100\<rparr>"
      and cdims = "\<lparr>width = 200, height = 100\<rparr>" and buf = "[200, 100, 11, 80]"
      and written = "[200, 100, 0, 80, 0]"] f3 encode_same w3
  have "\<exists>r s'. compress toy_sharp env1 ?req3 server1 = (Json r, s') \<and>
      res_originalSize r = file_size same \<and> res_compressedSize r = length [200, 100, 11, 80 :: nat]"
    by blast
  then obtain r3 s3 where run3: "compress toy_sharp env1 ?req3 server1 = (Json r3, s3)"
    and sz3: "res_originalSize r3 = 4" "res_compressedSize r3 = 4"
    by (auto simp: same_def)
  have hyp3: "compress toy_sharp env1 ?req3 server1 = (Json r3, s3) \<and>
      res_compressedSize r3 = res_originalSize r3"
    using run3 by (simp add: sz3)
  from compression_ratio_reported [where lib = toy_sharp and e = env1 and req = ?req3
      and s = server1 and r = r3 and s' = s3] hyp3
  have "jsonField (toJson r3) ''savings'' = Some (JString ''0 Bytes'')"
    by blast
  with run3 sz3
  have third: "\<exists>r s'. compress toy_sharp env1 ?req3 server1 = (Json r, s') \<and>
      res_originalSize r = 4 \<and> res_compressedSize r = 4 \<and>
      jsonField (toJson r) ''savings'' = Some (JString ''0 Bytes'')"
    by blast
  from first second third show ?thesis by blast
qed

section \<open>Artifact storage\<close>

text \<open>
  C1. The claim: the bytes persisted at the artifact path are exactly the encoded bytes
  of the codec step, the bytes whose length is reported as \<^verbatim>\<open>compressedSize\<close>. The
  handler does not write \<^verbatim>\<open>compressedBuffer\<close> itself: it hands the buffer to the image
  library once more, \<^verbatim>\<open>sharp(compressedBuffer).toFile(outputPath)\<close>, and what is stored
  is the output of that second pass. In the run below (quality 50) the encoding step
  yields four bytes ending in the quality 50, \<^verbatim>\<open>compressedSize\<close> is reported as 4, and
  the file stored under \<^verbatim>\<open>u1.jpeg\<close> holds five other bytes, encoded again at the
  library's default quality.
\<close>

theorem stored_bytes_differ_from_encoded:
  "encodeStep toy_sharp (request\<lparr>body_quality := Some ''50''\<rparr>) photo =
     Inr (\<lparr>width = 200, height = 100\<rparr>, \<lparr>width = 200, height = 100\<rparr>, [200, 100, 11, 50]) \<and>
   map_option res_compressedSize (body (fst (compress toy_sharp env1
       (request\<lparr>body_quality := Some ''50''\<rparr>) server1))) = Some 4 \<and>
   uploads (snd (compress toy_sharp env1 (request\<lparr>body_quality := Some ''50''\<rparr>) server1)) ''u1.jpeg''
     = Some [200, 100, 0, 80, 0]"
proof -
  let ?req = "request\<lparr>body_quality := Some ''50''\<rparr>"
  have f: "req_file ?req = Some photo" by (simp add: request_def)
  have w: "sharp_toFile toy_sharp (Sharp [200, 100, 11, 50] None) (outputName env1 ?req)
             = Inr [200, 100, 0, 80, 0]"
    by (simp add: toy_sharp_def toy_toFile_def)
  have n: "outputName env1 ?req = ''u1.jpeg''"
    by (simp add: outputName_def fileName_def env1_def request_def outputFormat_None)
  have anon: "req_user ?req = None" by (simp add: request_def)
  show ?thesis
    unfolding compress_run [OF f encode_q50 w]
    by (simp add: encode_q50 body_def response_def persist_def anon n)
qed

section \<open>Persistence of a compression\<close>

text \<open>
  C9. A compression request with no identity attached leaves the history collection and
  every user's counters as they were, whatever the outcome of the request. With an
  identity attached, a successful request has appended one record owned by that user
  (its id is the \<^verbatim>\<open>recordId\<close> of the response) and has added 1 to the owner's
  \<^verbatim>\<open>totalCompressions\<close>, the savings to \<^verbatim>\<open>totalSizeSaved\<close> and set
  \<^verbatim>\<open>lastCompression\<close>, in the state the handler returns together with the response.
\<close>

theorem compress_persistence:
  "(req_user req = None \<longrightarrow>
      histories (snd (compress lib e req s)) = histories s \<and>
      users (snd (compress lib e req s)) = users s) \<and>
   (req_user req = Some uid \<and> compress lib e req s = (Json r, s') \<longrightarrow>
      res_recordId r = Some (new_id e) \<and>
      (\<exists>h. histories s' = histories s @ [h] \<and> userId h = uid \<and> record_id h = new_id e \<and>
           compressedFilename h = res_fileName r) \<and>
      users s' =
        (case users s uid of
           None \<Rightarrow> users s
         | Some u \<Rightarrow>
             (users s)(uid \<mapsto>
                u\<lparr>totalCompressions := totalCompressions u + 1,
                  totalSizeSaved := totalSizeSaved u
                    + (int (res_originalSize r) - int (res_compressedSize r)),
                  lastCompression := Some (now e)\<rparr>)))"
proof (intro conjI impI)
  assume "req_user req = None"
  then show "histories (snd (compress lib e req s)) = histories s"
    and "users (snd (compress lib e req s)) = users s"
    by (rule compress_anonymous)+
next
  assume a: "req_user req = Some uid \<and> compress lib e req s = (Json r, s')"
  then obtain upl meta cdims buf written where
    r: "r = response e req upl (meta, cdims) buf" and
    s': "s' = persist e req upl (meta, cdims) buf
                (s\<lparr>uploads := (uploads s)(outputName e req \<mapsto> written)\<rparr>)"
    using compress_Json by blast
  from a have u: "req_user req = Some uid" by simp
  show "res_recordId r = Some (new_id e)" by (simp add: r response_def u)
  show "\<exists>h. histories s' = histories s @ [h] \<and> userId h = uid \<and> record_id h = new_id e \<and>
           compressedFilename h = res_fileName r"
    by (simp add: s' r histories_persist u historyRecord_def response_def)
  show "users s' =
        (case users s uid of
           None \<Rightarrow> users s
         | Some u \<Rightarrow>
             (users s)(uid \<mapsto>
                u\<lparr>totalCompressions := totalCompressions u + 1,
                  totalSizeSaved := totalSizeSaved u
                    + (int (res_originalSize r) - int (res_compressedSize r)),
                  lastCompression := Some (now e)\<rparr>))"
    by (simp add: s' r users_persist u response_def savingsOf_def split: option.splits)
qed

theorem compress_persistence_witness:
  "histories (snd (compress toy_sharp env1 request server1)) = histories server1 \<and>
   users (snd (compress toy_sharp env1 request server1)) = users server1 \<and>
   (\<exists>r s'. compress toy_sharp env1 (request\<lparr>req_user := Some 11\<rparr>) server1 = (Json r, s') \<and>
      res_recordId r = Some 7 \<and>
      (\<exists>h. histories s' = histories server1 @ [h] \<and> userId h = 11 \<and> record_id h = 7) \<and>
      map_option totalCompressions (users s' 11) = Some 3 \<and>
      map_option totalSizeSaved (users s' 11) = Some 54 \<and>
      map_option lastCompression (users s' 11) = Some (Some 1000))"
proof -
  let ?req = "request\<lparr>req_user := Some 11\<rparr>"
  have anon: "req_user request = None" by (simp add: request_def)
  have f: "req_file ?req = Some photo" by (simp add: request_def)
  have w: "sharp_toFile toy_sharp (Sharp [200, 100, 11, 80] None) (outputName env1 ?req)
             = Inr [200, 100, 0, 80, 0]"
    by (simp add: toy_sharp_def toy_toFile_def)
  note run = compress_run [OF f encode_user1 w, of server1]
  have u: "req_user ?req = Some 11" by simp
  from compress_persistence [where req = request and lib = toy_sharp and e = env1 and s = server1] anon
  have 1: "histories (snd (compress toy_sharp env1 request server1)) = histories server1 \<and>
           users (snd (compress toy_sharp env1 request server1)) = users server1"
    by blast
  let ?r = "response env1 ?req photo
              (\<lparr>width = 200, height = 100\<rparr>, \<lparr>width = 200, height = 100\<rparr>) [200, 100, 11, 80]"
  let ?s' = "persist env1 ?req photo
               (\<lparr>width = 200, height = 100\<rparr>, \<lparr>width = 200, height = 100\<rparr>) [200, 100, 11, 80]
               (server1\<lparr>uploads := (uploads server1)(outputName env1 ?req \<mapsto> [200, 100, 0, 80, 0])\<rparr>)"
  from compress_persistence [where req = ?req and uid = 11 and lib = toy_sharp and e = env1
      and s = server1 and r = ?r and s' = ?s'] u run
  have 2: "res_recordId ?r = Some (new_id env1) \<and>
      (\<exists>h. histories ?s' = histories server1 @ [h] \<and> userId h = 11 \<and> record_id h = new_id env1 \<and>
           compressedFilename h = res_fileName ?r) \<and>
      users ?s' =
        (case users server1 11 of
           None \<Rightarrow> users server1
         | Some u \<Rightarrow>
             (users server1)(11 \<mapsto>
                u\<lparr>totalCompressions := totalCompressions u + 1,
                  totalSizeSaved := totalSizeSaved u
                    + (int (res_originalSize ?r) - int (res_compressedSize ?r)),
                  lastCompression := Some (now env1)\<rparr>))"
    by blast
  have sizes: "res_originalSize ?r = 8" "res_compressedSize ?r = 4"
    by (simp_all add: response_def photo_def)
  have us: "users server1 11 = Some alice" by (simp add: server1_def)
  have ev: "new_id env1 = 7" "now env1 = 1000" by (simp_all add: env1_def)
  from 2 have 3: "res_recordId ?r = Some 7 \<and>
      (\<exists>h. histories ?s' = histories server1 @ [h] \<and> userId h = 11 \<and> record_id h = 7) \<and>
      map_option totalCompressions (users ?s' 11) = Some 3 \<and>
      map_option totalSizeSaved (users ?s' 11) = Some 54 \<and>
      map_option lastCompression (users ?s' 11) = Some (Some 1000)"
    by (auto simp: sizes us ev alice_def)
  from 1 3 run show ?thesis by blast
qed

section \<open>History listing\<close>

text \<open>
  C6. The claim: a page or limit below 1 fails with status 400. For the query
  \<^verbatim>\<open>page=0&limit=0\<close> the handler parses 0, which \<^verbatim>\<open>|| 1\<close> and \<^verbatim>\<open>|| 10\<close> replace by
  the defaults before the check \<^verbatim>\<open>page < 1 || limit < 1\<close> runs: the request succeeds
  with page 1 and limit 10, while \<^verbatim>\<open>page=-1\<close> is rejected. (The other parts of the claim
  hold: the lemmas on \<open>getHistory\<close> above.)
\<close>

theorem getHistory_page_zero:
  "status (fst (getHistory (Verified 11) query0 server1)) = 200 \<and>
   map_option (page \<circ> paging) (body (fst (getHistory (Verified 11) query0 server1))) = Some 1 \<and>
   map_option (limit \<circ> paging) (body (fst (getHistory (Verified 11) query0 server1))) = Some 10 \<and>
   fst (getHistory (Verified 11) (query0\<lparr>query_page := Some ''-1''\<rparr>) server1)
     = Fail 400 ''Page and limit must be positive integers'' None"
  by (simp add: getHistory_def authenticateToken_def query0_def parseInt_def stripSign_def
      stripPrefix_def isWhiteSpace_def isDigit_def digitValue_def mathInt_def orElse_def
      truthy_def validSortFields_def status_def body_def Let_def)

section \<open>Deleting a history record\<close>

text \<open>
  C7, as stated: every authenticated delete request for an id under which the requesting
  user owns no record fails with \<^verbatim>\<open>NotFound\<close>. The id of the request is the string of the
  URL, and a string that the driver does not take for an \<^verbatim>\<open>ObjectId\<close> never reaches the
  lookup: for the id \<^verbatim>\<open>abc\<close> the cast throws, and the \<^verbatim>\<open>catch\<close> of the handler answers
  with status 500 and the error \<^verbatim>\<open>Failed to delete record\<close>, not with 404.
\<close>

theorem deleteRecord_malformed_id:
  "deleteRecord hexObjectId (Verified 11) ''abc'' server1 =
     (Fail 500 ''Failed to delete record'' (Some ''Cast to ObjectId failed for value abc''), server1) \<and>
   status (fst (deleteRecord hexObjectId (Verified 11) ''abc'' server1)) \<noteq> 404"
  by (simp add: deleteRecord_def authenticateToken_def hexObjectId_def status_def)

text \<open>
  C7, amended. For every authenticated delete request, whatever the driver takes for an
  \<^verbatim>\<open>ObjectId\<close>: when the id of the request is not an \<^verbatim>\<open>ObjectId\<close> the request fails with
  status 500 and nothing changes; when it is one and no record with that id belongs to
  the requesting user (also when a record with that id belongs to another user) the
  request fails with status 404 and nothing changes; otherwise, and only then, it
  succeeds: the record is removed and the artifact file named by the record is absent
  afterwards, whether or not it existed before.
\<close>

theorem deleteRecord_owner_only:
  "(cast rid = Inl msg \<longrightarrow>
      deleteRecord cast (Verified uid) rid s = (Fail 500 ''Failed to delete record'' (Some msg), s)) \<and>
   (cast rid = Inr i \<and> \<not> (\<exists>r\<in>set (histories s). record_id r = i \<and> userId r = uid) \<longrightarrow>
      deleteRecord cast (Verified uid) rid s = (Fail 404 ''Record not found'' None, s)) \<and>
   (cast rid = Inr i \<and> (\<exists>r\<in>set (histories s). record_id r = i \<and> userId r = uid) \<longrightarrow>
      (\<exists>r\<in>set (histories s). record_id r = i \<and> userId r = uid \<and>
         deleteRecord cast (Verified uid) rid s =
           (Json ''Compression record deleted successfully'',
            s\<lparr>uploads := (uploads s)(compressedFilename r := None),
              histories := deleteFirst (\<lambda>r. record_id r = i) (histories s)\<rparr>)))"
proof (intro conjI impI)
  assume "cast rid = Inl msg"
  then show "deleteRecord cast (Verified uid) rid s =
               (Fail 500 ''Failed to delete record'' (Some msg), s)"
    by (simp add: deleteRecord_def authenticateToken_def)
next
  assume a: "cast rid = Inr i \<and> \<not> (\<exists>r\<in>set (histories s). record_id r = i \<and> userId r = uid)"
  then have "find (\<lambda>r. record_id r = i \<and> userId r = uid) (histories s) = None"
    by (simp add: find_None_iff)
  with a show "deleteRecord cast (Verified uid) rid s = (Fail 404 ''Record not found'' None, s)"
    by (simp add: deleteRecord_def authenticateToken_def)
next
  assume a: "cast rid = Inr i \<and> (\<exists>r\<in>set (histories s). record_id r = i \<and> userId r = uid)"
  then obtain r where f: "find (\<lambda>r. record_id r = i \<and> userId r = uid) (histories s) = Some r"
    by (cases "find (\<lambda>r. record_id r = i \<and> userId r = uid) (histories s)")
       (auto simp: find_None_iff)
  then have r: "r \<in> set (histories s)" "record_id r = i" "userId r = uid"
    by (auto simp: find_Some_iff)
  from a have "deleteRecord cast (Verified uid) rid s =
           (Json ''Compression record deleted successfully'',
            s\<lparr>uploads := (uploads s)(compressedFilename r := None),
              histories := deleteFirst (\<lambda>r. record_id r = i) (histories s)\<rparr>)"
    by (simp add: deleteRecord_def authenticateToken_def f unlinkIfExists_eq)
  with r show "\<exists>r\<in>set (histories s). record_id r = i \<and> userId r = uid \<and>
         deleteRecord cast (Verified uid) rid s =
           (Json ''Compression record deleted successfully'',
            s\<lparr>uploads := (uploads s)(compressedFilename r := None),
              histories := deleteFirst (\<lambda>r. record_id r = i) (histories s)\<rparr>)"
    by blast
qed

theorem deleteRecord_owner_only_witness:
  "deleteRecord hexObjectId (Verified 11) ''21'' server1 =
     (Fail 500 ''Failed to delete record'' (Some ''Cast to ObjectId failed for value 21''), server1) \<and>
   deleteRecord hexObjectId (Verified 12) ''000000000000000000000015'' server1 =
     (Fail 404 ''Record not found'' None, server1) \<and>
   deleteRecord hexObjectId (Verified 11) ''000000000000000000000017'' server1 =
     (Fail 404 ''Record not found'' None, server1) \<and>
   fst (deleteRecord hexObjectId (Verified 11) ''000000000000000000000015'' server1) =
     Json ''Compression record deleted successfully'' \<and>
   uploads (snd (deleteRecord hexObjectId (Verified 11) ''000000000000000000000015'' server1))
     ''a.jpeg'' = None \<and>
   map record_id
     (histories (snd (deleteRecord hexObjectId (Verified 11) ''000000000000000000000015'' server1)))
     = [22] \<and>
   fst (deleteRecord hexObjectId (Verified 11) ''000000000000000000000016'' server1) =
     Json ''Compression record deleted successfully'' \<and>
   map record_id
     (histories (snd (deleteRecord hexObjectId (Verified 11) ''000000000000000000000016'' server1)))
     = [21]"
proof -
  have bad: "hexObjectId ''21'' = Inl ''Cast to ObjectId failed for value 21''"
    by (simp add: hexObjectId_def)
  have c21: "hexObjectId ''000000000000000000000015'' = Inr 21" by code_simp
  have c22: "hexObjectId ''000000000000000000000016'' = Inr 22" by code_simp
  have c23: "hexObjectId ''000000000000000000000017'' = Inr 23" by code_simp
  have other: "\<not> (\<exists>r\<in>set (histories server1). record_id r = 21 \<and> userId r = 12)"
    by (simp add: histories_server1 stored_def)
  have none: "\<not> (\<exists>r\<in>set (histories server1). record_id r = 23 \<and> userId r = 11)"
    by (simp add: histories_server1 stored_def)
  have own1: "\<exists>r\<in>set (histories server1). record_id r = 21 \<and> userId r = 11"
    by (simp add: histories_server1 stored_def)
  have own2: "\<exists>r\<in>set (histories server1). record_id r = 22 \<and> userId r = 11"
    by (simp add: histories_server1 stored_def)
  from deleteRecord_owner_only [where cast = hexObjectId and rid = "''21''" and uid = 11
      and s = server1] bad
  have z: "deleteRecord hexObjectId (Verified 11) ''21'' server1 =
     (Fail 500 ''Failed to delete record'' (Some ''Cast to ObjectId failed for value 21''), server1)"
    by blast
  from deleteRecord_owner_only [where cast = hexObjectId and i = 21 and uid = 12
      and rid = "''000000000000000000000015''" and s = server1] c21 other
  have a: "deleteRecord hexObjectId (Verified 12) ''000000000000000000000015'' server1 =
             (Fail 404 ''Record not found'' None, server1)"
    by blast
  from deleteRecord_owner_only [where cast = hexObjectId and i = 23 and uid = 11
      and rid = "''000000000000000000000017''" and s = server1] c23 none
  have b: "deleteRecord hexObjectId (Verified 11) ''000000000000000000000017'' server1 =
             (Fail 404 ''Record not found'' None, server1)"
    by blast
  from deleteRecord_owner_only [where cast = hexObjectId and i = 21 and uid = 11
      and rid = "''000000000000000000000015''" and s = server1] c21 own1
  obtain r where r: "r \<in> set (histories server1)" "record_id r = 21"
    and run1: "deleteRecord hexObjectId (Verified 11) ''000000000000000000000015'' server1 =
           (Json ''Compression record deleted successfully'',
            server1\<lparr>uploads := (uploads server1)(compressedFilename r := None),
              histories := deleteFirst (\<lambda>r. record_id r = 21) (histories server1)\<rparr>)"
    by blast
  from r have name: "compressedFilename r = ''a.jpeg''"
    by (auto simp: histories_server1 stored_def)
  from deleteRecord_owner_only [where cast = hexObjectId and i = 22 and uid = 11
      and rid = "''000000000000000000000016''" and s = server1] c22 own2
  obtain r2 where "r2 \<in> set (histories server1)"
    and run2: "deleteRecord hexObjectId (Verified 11) ''000000000000000000000016'' server1 =
           (Json ''Compression record deleted successfully'',
            server1\<lparr>uploads := (uploads server1)(compressedFilename r2 := None),
              histories := deleteFirst (\<lambda>r. record_id r = 22) (histories server1)\<rparr>)"
    by blast
  show ?thesis
    unfolding z a b run1 run2 name
    by (simp add: histories_server1 stored_def)
qed

section \<open>Cleanup by file name\<close>

text \<open>
  C8. The claim: both deletions of the cleanup request are scoped to the owning user.
  The record is looked up by file name and requesting user, but the file is unlinked by
  name alone. In the run below user 12 asks to clean up \<^verbatim>\<open>a.jpeg\<close>, the artifact of a
  record of user 11: the request succeeds and the file is gone, while the record of
  user 11 is still there. (The reply is 404 exactly when no file of the name exists:
  lemma \<open>cleanup_reply\<close>.)
\<close>

theorem cleanup_deletes_foreign_file:
  "fst (cleanup (Verified 12) ''a.jpeg'' server1) = Json ''File deleted successfully'' \<and>
   uploads server1 ''a.jpeg'' = Some [4, 4, 0, 80, 0] \<and>
   uploads (snd (cleanup (Verified 12) ''a.jpeg'' server1)) ''a.jpeg'' = None \<and>
   histories (snd (cleanup (Verified 12) ''a.jpeg'' server1)) = histories server1 \<and>
   map userId (filter (\<lambda>r. compressedFilename r = ''a.jpeg'') (histories server1)) = [11]"
  by (simp add: cleanup_def authenticateToken_def server1_def stored_def)

text \<open>
  C10. When a record matching the file name and the requesting user exists but no file of
  that name does, the cleanup request is answered 404 and the record has been removed all
  the same: the state after the request differs from the state before.
\<close>

theorem cleanup_removes_record_before_check:
  "(\<exists>r\<in>set (histories s). compressedFilename r = name \<and> userId r = uid) \<and> uploads s name = None \<longrightarrow>
     (\<exists>s'. cleanup (Verified uid) name s = (Fail 404 ''File not found'' None, s') \<and>
           histories s' = deleteFirst (\<lambda>r. compressedFilename r = name \<and> userId r = uid) (histories s) \<and>
           Suc (length (histories s')) = length (histories s) \<and> s' \<noteq> s)"
proof
  assume a: "(\<exists>r\<in>set (histories s). compressedFilename r = name \<and> userId r = uid) \<and> uploads s name = None"
  let ?P = "\<lambda>r. compressedFilename r = name \<and> userId r = uid"
  let ?s' = "s\<lparr>histories := deleteFirst ?P (histories s)\<rparr>"
  have run: "cleanup (Verified uid) name s = (Fail 404 ''File not found'' None, ?s')"
    using a by (simp add: cleanup_def authenticateToken_def)
  have len: "Suc (length (histories ?s')) = length (histories s)"
    using a length_deleteFirst [of "histories s" ?P] by simp
  then have "histories ?s' \<noteq> histories s" by auto
  then have "?s' \<noteq> s" by (metis)
  with run len show "\<exists>s'. cleanup (Verified uid) name s = (Fail 404 ''File not found'' None, s') \<and>
           histories s' = deleteFirst ?P (histories s) \<and>
           Suc (length (histories s')) = length (histories s) \<and> s' \<noteq> s"
    by auto
qed

theorem cleanup_removes_record_before_check_witness:
  "fst (cleanup (Verified 11) ''gone.jpeg'' server1) = Fail 404 ''File not found'' None \<and>
   map record_id (histories (snd (cleanup (Verified 11) ''gone.jpeg'' server1))) = [21] \<and>
   map record_id (histories server1) = [21, 22]"
proof -
  have pre: "(\<exists>r\<in>set (histories server1). compressedFilename r = ''gone.jpeg'' \<and> userId r = 11)
             \<and> uploads server1 ''gone.jpeg'' = None"
    by (simp add: server1_def stored_def)
  from cleanup_removes_record_before_check [of server1 "''gone.jpeg''" 11] pre
  obtain s' where run: "cleanup (Verified 11) ''gone.jpeg'' server1 = (Fail 404 ''File not found'' None, s')"
    and h: "histories s' = deleteFirst (\<lambda>r. compressedFilename r = ''gone.jpeg'' \<and> userId r = 11) (histories server1)"
    by blast
  show ?thesis
    unfolding run by (simp add: h histories_server1 stored_def)
qed

end
